theory Spec2Isabelle
  imports Complex_Main "HOL-Library.AList" "HOL-Library.Sublist"
begin

section \<open>Python primitives used by main.py\<close>

text \<open>
  Python floats are idealised as the reals throughout: \<open>math.pi\<close> is \<open>pi\<close>,
  \<open>math.sqrt\<close> is \<open>sqrt\<close>, and no rounding happens.  Python integers are \<open>int\<close>.
  The exceptions that the modelled code can raise are values of \<open>error\<close>.
\<close>

datatype error = ZeroDivisionError | ValueError | KeyError

text \<open>\<open>a % b\<close> on floats, for a positive divisor: the result has the sign of \<open>b\<close>.\<close>

definition py_fmod :: "real \<Rightarrow> real \<Rightarrow> real" where
  "py_fmod a b = a - b * of_int \<lfloor>a / b\<rfloor>"

text \<open>\<open>int(v)\<close> on a float truncates towards zero.\<close>

definition py_int :: "real \<Rightarrow> int" where
  "py_int v = (if v < 0 then \<lceil>v\<rceil> else \<lfloor>v\<rfloor>)"

text \<open>\<open>math.hypot(dx, dy)\<close>.\<close>

definition hypot :: "real \<Rightarrow> real \<Rightarrow> real" where
  "hypot dx dy = sqrt (dx\<^sup>2 + dy\<^sup>2)"

text \<open>
  Decimal digits of a natural number, and the format specification \<open>:02d\<close>: the
  number is padded with zeros to two characters; a negative number carries its sign and
  is then already two characters wide.
\<close>

definition digit_char :: "nat \<Rightarrow> char" where
  "digit_char n = ''0123456789'' ! n"

function digits :: "nat \<Rightarrow> string" where
  "digits n = (if n < 10 then [digit_char n] else digits (n div 10) @ [digit_char (n mod 10)])"
  by pat_completeness auto
termination
  by (relation "measure id") auto

definition fmt_02d :: "int \<Rightarrow> string" where
  "fmt_02d n =
     (if n < 0 then CHR ''-'' # digits (nat (- n))
      else let s = digits (nat n) in replicate (2 - length s) CHR ''0'' @ s)"

section \<open>Configuration (main.py, lines 18--39)\<close>

definition ROTATE_SYMBOL :: int where "ROTATE_SYMBOL = 0"
definition SELECT_SYMBOL :: int where "SELECT_SYMBOL = 1"
definition BACK_SYMBOL :: int where "BACK_SYMBOL = 12"
definition NURSE_MODE_SYMBOL :: int where "NURSE_MODE_SYMBOL = 13"
definition VIEW_PATIENT_INFO_SYMBOL :: int where "VIEW_PATIENT_INFO_SYMBOL = 14"
definition EDIT_MEDICATIONS_SYMBOL :: int where "EDIT_MEDICATIONS_SYMBOL = 15"

text \<open>The dictionary literal, in insertion order.\<close>

definition MEDICATION_SYMBOLS :: "(int \<times> string) list" where
  "MEDICATION_SYMBOLS =
     [(1, ''Paracetamol''), (2, ''Amoxicillin''), (3, ''Aspirin''),
      (4, ''Metformin''), (5, ''Lisinopril''), (6, ''Atorvastatin'')]"

definition NUM_WHEEL_SECTORS :: int where
  "NUM_WHEEL_SECTORS = int (length MEDICATION_SYMBOLS)"

section \<open>Tracking records, the registry and events\<close>

datatype event_type = Add | Update | Remove

text \<open>
  The dictionary \<open>record\<close> that \<open>_handle_obj\<close> builds.  \<open>session_id\<close> is read with
  \<open>getattr(obj, 'session_id', None)\<close>, so it may be \<open>None\<close>.
\<close>

record tuio_record =
  r_event :: event_type
  r_symbol_id :: int
  r_session_id :: "int option"
  r_x :: real
  r_y :: real
  r_angle :: real

text \<open>
  What the attribute probing of \<open>_handle_obj\<close> (lines 97--113) reads from a tracking
  object: the marker id is \<open>None\<close> when none of the four attribute names is present (or
  the attribute holds \<open>None\<close>); the position and the angle come with their defaults
  already applied.
\<close>

record tuio_object =
  obj_symbol_id :: "int option"
  obj_session_id :: "int option"
  obj_x :: real
  obj_y :: real
  obj_angle :: real

text \<open>
  \<open>latest_objects\<close>: a Python dictionary keeps insertion order, assigning to a present
  key keeps its place, \<open>pop(k, None)\<close> deletes the key if it is there.  These are
  \<open>AList.update\<close> and \<open>AList.delete\<close> on an association list.
\<close>

type_synonym registry = "(int option \<times> tuio_record) list"

text \<open>The JSON objects passed to \<open>broadcast\<close>, one constructor per \<open>"type"\<close>.\<close>

datatype event =
    Tuio_obj tuio_record
  | Wheel_open real real string
  | Wheel_hover int real real real string string
  | Wheel_select_confirm int string string
  | Nurse_wheel_open real real
  | Nurse_wheel_hover int real real real string
  | Nurse_wheel_select_confirm int string
  | Nurse_edit_med_select int string
  | Back_pressed
  | Gesture_mode_toggled bool
  | Gesture_time_update string int
  | Gesture_time_final string int

datatype lock = latest_objects_lock | gesture_detection_lock | clients_lock

text \<open>
  What a caller does, in program order: entering and leaving a \<open>with lock:\<close> block, and
  calling \<open>broadcast\<close>.
\<close>

datatype action = Acquire lock | Release lock | Broadcast event

section \<open>The interaction engine: \<open>process_logic_and_broadcast\<close>\<close>

text \<open>
  Lines 148--150 and 187--189 are the same three statements; they are the two functions
  below.  \<open>wheel_sector\<close> always lies in \<open>[0, 6)\<close> (lemma \<open>wheel_sector_range\<close>), so the
  list index of \<open>medication_at\<close> is always in range and never raises.
\<close>

definition wheel_theta :: "real \<Rightarrow> real" where
  "wheel_theta angle = py_fmod angle (2 * pi)"

definition wheel_sector :: "real \<Rightarrow> int" where
  "wheel_sector angle =
     (let theta = wheel_theta angle;
          frac = theta / (2 * pi)
      in py_int (frac * of_int NUM_WHEEL_SECTORS) mod NUM_WHEEL_SECTORS)"

definition medication_at :: "int \<Rightarrow> string" where
  "medication_at sector = map snd MEDICATION_SYMBOLS ! nat sector"

text \<open>The distance test of every scan: \<open>math.hypot(dx, dy) < 0.08\<close>.\<close>

definition marker_dist :: "tuio_record \<Rightarrow> tuio_record \<Rightarrow> real" where
  "marker_dist srec record =
     (let dx = r_x srec - r_x record;
          dy = r_y srec - r_y record
      in hypot dx dy)"

text \<open>Body of the loop of lines 167--179, for one item of the registry.\<close>

definition select_body :: "tuio_record \<Rightarrow> int \<Rightarrow> int option \<times> tuio_record \<Rightarrow> action list" where
  "select_body record sector item =
     (let srec = snd item in
      if r_symbol_id srec = SELECT_SYMBOL then
        (if marker_dist srec record < 0.08 then
           [Broadcast (Wheel_select_confirm sector (medication_at sector) ''patient'')]
         else [])
      else [])"

text \<open>Body of the loop of lines 205--230.\<close>

definition nurse_select_body :: "tuio_record \<Rightarrow> int \<Rightarrow> int option \<times> tuio_record \<Rightarrow> action list" where
  "nurse_select_body record sector item =
     (let srec = snd item in
      if r_symbol_id srec = VIEW_PATIENT_INFO_SYMBOL then
        (if marker_dist srec record < 0.08 then
           [Broadcast (Nurse_wheel_select_confirm sector (medication_at sector))]
         else [])
      else if r_symbol_id srec = EDIT_MEDICATIONS_SYMBOL then
        (if marker_dist srec record < 0.08 then
           [Broadcast (Nurse_edit_med_select sector (medication_at sector))]
         else [])
      else [])"

text \<open>
  A scan: \<open>with latest_objects_lock: for ... in list(latest_objects.items()): body\<close>.
  The loop, with the calls to \<open>broadcast\<close> in its body, is inside the \<open>with\<close> block.
\<close>

definition locked_scan :: "(int option \<times> tuio_record \<Rightarrow> action list) \<Rightarrow> registry \<Rightarrow> action list" where
  "locked_scan body objs =
     [Acquire latest_objects_lock] @ concat (map body objs) @ [Release latest_objects_lock]"

text \<open>Lines 143--179.\<close>

definition patient_wheel_logic :: "registry \<Rightarrow> tuio_record \<Rightarrow> action list" where
  "patient_wheel_logic objs record =
     (if r_symbol_id record = ROTATE_SYMBOL \<and> r_event record = Add then
        [Broadcast (Wheel_open (r_x record) (r_y record) ''patient'')]
      else []) @
     (if r_symbol_id record = ROTATE_SYMBOL \<and> r_event record \<in> {Add, Update} then
        (let theta = wheel_theta (r_angle record);
             sector = wheel_sector (r_angle record);
             medication_name = medication_at sector
         in [Broadcast (Wheel_hover sector theta (r_x record) (r_y record)
                          medication_name ''patient'')] @
            locked_scan (select_body record sector) objs)
      else [])"

text \<open>Lines 182--230.\<close>

definition nurse_wheel_logic :: "registry \<Rightarrow> tuio_record \<Rightarrow> action list" where
  "nurse_wheel_logic objs record =
     (if r_symbol_id record = NURSE_MODE_SYMBOL \<and> r_event record = Add then
        [Broadcast (Nurse_wheel_open (r_x record) (r_y record))]
      else []) @
     (if r_symbol_id record = NURSE_MODE_SYMBOL \<and> r_event record \<in> {Add, Update} then
        (let theta = wheel_theta (r_angle record);
             sector = wheel_sector (r_angle record);
             medication_name = medication_at sector
         in [Broadcast (Nurse_wheel_hover sector theta (r_x record) (r_y record)
                          medication_name)] @
            locked_scan (nurse_select_body record sector) objs)
      else [])"

text \<open>
  Lines 233--238: the flag is cleared under its lock, then \<open>back_pressed\<close> is sent.
  The result is the actions and the new value of \<open>gesture_detection_enabled\<close>.
\<close>

definition back_logic :: "bool \<Rightarrow> tuio_record \<Rightarrow> action list \<times> bool" where
  "back_logic enabled record =
     (if r_symbol_id record = BACK_SYMBOL \<and> r_event record = Add then
        ([Acquire gesture_detection_lock, Release gesture_detection_lock,
          Broadcast Back_pressed], False)
      else ([], enabled))"

text \<open>
  Lines 243--252: the loop stops at the first nurse-mode marker that is near
  (\<open>break\<close>), so \<open>marker13_nearby\<close> says whether there is one.
\<close>

definition marker13_nearby :: "registry \<Rightarrow> tuio_record \<Rightarrow> bool" where
  "marker13_nearby objs record =
     list_ex (\<lambda>item. r_symbol_id (snd item) = NURSE_MODE_SYMBOL \<and>
                     marker_dist (snd item) record < 0.08) objs"

text \<open>Lines 241--261.\<close>

definition gesture_toggle_logic :: "registry \<Rightarrow> bool \<Rightarrow> tuio_record \<Rightarrow> action list \<times> bool" where
  "gesture_toggle_logic objs enabled record =
     (if r_symbol_id record = EDIT_MEDICATIONS_SYMBOL \<and> r_event record = Add then
        (if \<not> marker13_nearby objs record then
           ([Acquire latest_objects_lock, Release latest_objects_lock,
             Acquire gesture_detection_lock, Release gesture_detection_lock,
             Broadcast (Gesture_mode_toggled True)], True)
         else ([Acquire latest_objects_lock, Release latest_objects_lock], enabled))
      else ([], enabled))"

text \<open>
  The whole function: the \<open>tuio_obj\<close> message, then the independent \<open>if\<close> blocks in
  their order.  It reads the registry, and reads and writes the gesture flag.
\<close>

definition process_logic_and_broadcast :: "registry \<Rightarrow> bool \<Rightarrow> tuio_record \<Rightarrow> action list \<times> bool" where
  "process_logic_and_broadcast objs enabled record =
     (let (back_acts, enabled1) = back_logic enabled record;
          (toggle_acts, enabled2) = gesture_toggle_logic objs enabled1 record
      in ([Broadcast (Tuio_obj record)] @ patient_wheel_logic objs record @
          nurse_wheel_logic objs record @ back_acts @ toggle_acts, enabled2))"

text \<open>The messages a caller hands to \<open>broadcast\<close>, in order.\<close>

fun broadcasts :: "action list \<Rightarrow> event list" where
  "broadcasts [] = []"
| "broadcasts (Broadcast e # as) = e # broadcasts as"
| "broadcasts (a # as) = broadcasts as"

section \<open>The registry: \<open>MyTuioListener._handle_obj\<close>\<close>

record engine_state =
  latest_objects :: registry
  gesture_detection_enabled :: bool

text \<open>
  Lines 95--133.  An object without a marker id is logged and dropped before the
  registry is touched.  Otherwise the record is stored (add, update) or its session is
  deleted (remove) under the registry lock, and the record is processed.
\<close>

definition handle_obj :: "event_type \<Rightarrow> tuio_object \<Rightarrow> engine_state \<Rightarrow> action list \<times> engine_state" where
  "handle_obj event_type obj st =
     (case obj_symbol_id obj of
        None \<Rightarrow> ([], st)
      | Some symbol_id \<Rightarrow>
          (let session_id = obj_session_id obj;
               record = \<lparr>r_event = event_type, r_symbol_id = symbol_id,
                         r_session_id = session_id, r_x = obj_x obj, r_y = obj_y obj,
                         r_angle = obj_angle obj\<rparr>;
               objs = (if event_type \<in> {Add, Update}
                       then AList.update session_id record (latest_objects st)
                       else AList.delete session_id (latest_objects st));
               (acts, enabled) =
                  process_logic_and_broadcast objs (gesture_detection_enabled st) record
           in ([Acquire latest_objects_lock, Release latest_objects_lock] @ acts,
               \<lparr>latest_objects = objs, gesture_detection_enabled = enabled\<rparr>)))"

text \<open>The listener's callbacks, one tracking event after the other.\<close>

fun handle_all :: "(event_type \<times> tuio_object) list \<Rightarrow> engine_state \<Rightarrow> engine_state" where
  "handle_all [] st = st"
| "handle_all (e # es) st = handle_all es (snd (handle_obj (fst e) (snd e) st))"

text \<open>The globals at start (lines 44 and 49).\<close>

definition initial_engine :: engine_state where
  "initial_engine = \<lparr>latest_objects = [], gesture_detection_enabled = False\<rparr>"

text \<open>
  Locks.  \<open>broadcast\<close> takes \<open>clients_lock\<close> for its whole sweep (line 59) and no other
  lock.  \<open>sweeps held as\<close> lists every message a caller publishes together with the
  locks that are held during its sweep: the locks the caller holds at the call, and
  \<open>clients_lock\<close>.
\<close>

fun sweeps :: "lock set \<Rightarrow> action list \<Rightarrow> (event \<times> lock set) list" where
  "sweeps held [] = []"
| "sweeps held (Acquire l # as) = sweeps (insert l held) as"
| "sweeps held (Release l # as) = sweeps (held - {l}) as"
| "sweeps held (Broadcast e # as) = (e, insert clients_lock held) # sweeps held as"

text \<open>The locks a caller holds after a sequence of actions.\<close>

fun held_after :: "lock set \<Rightarrow> action list \<Rightarrow> lock set" where
  "held_after held [] = held"
| "held_after held (Acquire l # as) = held_after (insert l held) as"
| "held_after held (Release l # as) = held_after (held - {l}) as"
| "held_after held (Broadcast e # as) = held_after held as"

text \<open>The three messages that the proximity scans of the two wheels publish.\<close>

fun is_confirmation :: "event \<Rightarrow> bool" where
  "is_confirmation (Wheel_select_confirm s m k) = True"
| "is_confirmation (Nurse_wheel_select_confirm s i) = True"
| "is_confirmation (Nurse_edit_med_select s m) = True"
| "is_confirmation e = False"

text \<open>
  A message with the locks held during its sweep when it is a confirmation of a
  proximity scan (the registry lock and the lock of \<open>clients\<close>) and when it is any
  other message (the lock of \<open>clients\<close> alone).
\<close>

definition sweep_locks :: "event \<Rightarrow> event \<times> lock set" where
  "sweep_locks e =
     (e, if is_confirmation e then {latest_objects_lock, clients_lock} else {clients_lock})"

section \<open>The broadcast hub: \<open>broadcast\<close>\<close>

text \<open>
  \<open>sendall c data\<close> says whether the send to the socket \<open>c\<close> succeeds (\<open>True\<close>) or
  raises (\<open>False\<close>).  The loop of lines 62--68 keeps \<open>dead\<close> and \<open>sent_count\<close>; the
  third component records every call of \<open>sendall\<close>, in order.
\<close>

fun send_loop :: "('h \<Rightarrow> 'd \<Rightarrow> bool) \<Rightarrow> 'd \<Rightarrow> 'h list \<Rightarrow> 'h list \<Rightarrow> nat \<Rightarrow> ('h \<times> 'd) list
    \<Rightarrow> 'h list \<times> nat \<times> ('h \<times> 'd) list" where
  "send_loop sendall data [] dead sent_count calls = (dead, sent_count, calls)"
| "send_loop sendall data (client_socket # cs) dead sent_count calls =
     (if sendall client_socket data
      then send_loop sendall data cs dead (sent_count + 1) (calls @ [(client_socket, data)])
      else send_loop sendall data cs (dead @ [client_socket]) sent_count
             (calls @ [(client_socket, data)]))"

text \<open>
  Lines 69--70.  \<open>list.remove\<close> deletes the first equal element and raises
  \<open>ValueError\<close> when there is none.
\<close>

fun remove_dead :: "'h list \<Rightarrow> 'h list \<Rightarrow> error + 'h list" where
  "remove_dead [] clients = Inr clients"
| "remove_dead (dead_client # ds) clients =
     (if dead_client \<in> set clients then remove_dead ds (remove1 dead_client clients)
      else Inl ValueError)"

text \<open>
  \<open>broadcast\<close>: \<open>dumps\<close> stands for the serialisation of line 58.  The result is the
  new \<open>clients\<close> list, the calls of \<open>sendall\<close> and \<open>sent_count\<close>.
\<close>

definition broadcast :: "('h \<Rightarrow> 'd \<Rightarrow> bool) \<Rightarrow> ('e \<Rightarrow> 'd) \<Rightarrow> 'h list \<Rightarrow> 'e
    \<Rightarrow> error + 'h list \<times> ('h \<times> 'd) list \<times> nat" where
  "broadcast sendall dumps clients obj =
     (let data = dumps obj;
          (dead, sent_count, calls) = send_loop sendall data clients [] 0 []
      in case remove_dead dead clients of
           Inl e \<Rightarrow> Inl e
         | Inr clients' \<Rightarrow> Inr (clients', calls, sent_count))"

section \<open>The time-adjustment controller: \<open>hand_tracking_thread\<close>\<close>

record landmark =
  lm_x :: real
  lm_y :: real
  lm_z :: real

text \<open>The landmarks 0, 4, 8, 12, 16 and 20 of a detected hand.\<close>

record hand_landmarks =
  wrist :: landmark
  thumb_tip :: landmark
  index_tip :: landmark
  middle_tip :: landmark
  ring_tip :: landmark
  pinky_tip :: landmark

definition distance_3d :: "landmark \<Rightarrow> landmark \<Rightarrow> real" where
  "distance_3d p1 p2 =
     sqrt ((lm_x p1 - lm_x p2)\<^sup>2 + (lm_y p1 - lm_y p2)\<^sup>2 + (lm_z p1 - lm_z p2)\<^sup>2)"

text \<open>Lines 497--516.\<close>

definition is_fist :: "hand_landmarks \<Rightarrow> bool" where
  "is_fist hand =
     (let palm_base = wrist hand;
          thumb_dist = distance_3d (thumb_tip hand) palm_base;
          index_dist = distance_3d (index_tip hand) palm_base;
          middle_dist = distance_3d (middle_tip hand) palm_base;
          ring_dist = distance_3d (ring_tip hand) palm_base;
          pinky_dist = distance_3d (pinky_tip hand) palm_base;
          avg_distance = (thumb_dist + index_dist + middle_dist + ring_dist + pinky_dist) / 5
      in avg_distance < 0.15)"

text \<open>\<open>f"{hours:02d}:{minutes:02d}"\<close> of lines 398--400, 523--525 and 564--566.\<close>

definition time_str :: "int \<Rightarrow> string" where
  "time_str current_time_minutes =
     (let hours = current_time_minutes div 60;
          minutes = current_time_minutes mod 60
      in fmt_02d hours @ '':'' @ fmt_02d minutes)"

text \<open>Lines 556--561: the new value of \<open>current_time_minutes\<close>.\<close>

definition adjust_time :: "int \<Rightarrow> real \<Rightarrow> int" where
  "adjust_time base_time_minutes hand_x =
     (let max_adjustment_minutes = 240;
          time_offset = (hand_x - 0.5) * 2 * of_int max_adjustment_minutes;
          current_time_minutes = base_time_minutes + py_int time_offset
      in max 0 (min 1439 current_time_minutes))"

text \<open>
  The local variables of the thread; \<open>cap_open\<close> is \<open>cap is not None\<close> and
  \<open>hands_ready\<close> is \<open>hands is not None\<close>.
\<close>

record tracker =
  base_time_minutes :: int
  current_time_minutes :: int
  last_broadcast_time :: real
  cap_open :: bool
  hands_ready :: bool
  gesture_active :: bool
  frame_count :: nat

definition initial_tracker :: tracker where
  "initial_tracker =
     \<lparr>base_time_minutes = 450, current_time_minutes = 450, last_broadcast_time = 0,
      cap_open = False, hands_ready = False, gesture_active = False, frame_count = 0\<rparr>"

text \<open>
  What one pass of the \<open>while running\<close> loop reads from outside: whether one of the
  cameras opens (lines 420--445), the frame (\<open>None\<close>: \<open>cap.read()\<close> fails; MediaPipe runs
  with \<open>max_num_hands=1\<close>, so a frame has at most one hand), \<open>len(clients)\<close> as line 530
  reads it, whether the key \<open>q\<close> is pressed, and \<open>time.time()\<close>.
\<close>

record loop_input =
  camera_opens :: bool
  frame :: "hand_landmarks option option"
  client_count :: nat
  key_q :: bool
  now :: real

text \<open>
  Lines 491--604, the body of the loop over the detected hands.  The result is the
  messages published, the new locals and the new value of the shared flag
  \<open>gesture_detection_enabled\<close>.
\<close>

definition track_hand :: "loop_input \<Rightarrow> hand_landmarks \<Rightarrow> tracker \<Rightarrow> bool
    \<Rightarrow> event list \<times> tracker \<times> bool" where
  "track_hand inp hand st enabled =
     (if is_fist hand then
        ((if client_count inp > 0 then
            [Gesture_time_final (time_str (current_time_minutes st)) (current_time_minutes st),
             Gesture_mode_toggled False]
          else []), st, False)
      else
        (let hand_x = lm_x (wrist hand);
             cur = adjust_time (base_time_minutes st) hand_x;
             st1 = st\<lparr>current_time_minutes := cur\<rparr>
         in if now inp - last_broadcast_time st \<ge> 0.5 then
              ([Gesture_time_update (time_str cur) cur],
               st1\<lparr>last_broadcast_time := now inp\<rparr>, enabled)
            else ([], st1, enabled)))"

text \<open>One pass of the loop of lines 387--614.\<close>

definition hand_tracking_pass :: "loop_input \<Rightarrow> tracker \<Rightarrow> bool \<Rightarrow> event list \<times> tracker \<times> bool" where
  "hand_tracking_pass inp st enabled =
     (if \<not> enabled then
        (if gesture_active st then
           ([Gesture_time_final (time_str (current_time_minutes st)) (current_time_minutes st)],
            st\<lparr>cap_open := False, gesture_active := False\<rparr>, enabled)
         else ([], st, enabled))
      else if \<not> cap_open st \<and> \<not> camera_opens inp then ([], st, enabled)
      else
        (let st1 = (if \<not> cap_open st then
                      st\<lparr>cap_open := True, hands_ready := True, gesture_active := True,
                         frame_count := 0, base_time_minutes := 450,
                         current_time_minutes := 450\<rparr>
                    else st)
         in if cap_open st1 \<and> hands_ready st1 then
              (case frame inp of
                 None \<Rightarrow> ([], st1, enabled)
               | Some detected \<Rightarrow>
                   (let st2 = st1\<lparr>frame_count := frame_count st1 + 1\<rparr>;
                        (evs, st3, enabled3) =
                           (case detected of
                              None \<Rightarrow> ([], st2, enabled)
                            | Some hand \<Rightarrow> track_hand inp hand st2 enabled)
                    in (evs, st3, if key_q inp then False else enabled3)))
            else ([], st1, enabled)))"

text \<open>
  Several passes.  Before a pass another thread may write the shared flag (the back
  marker clears it, the edit-medications marker sets it): \<open>Some b\<close> is such a write.
\<close>

fun hand_tracking_loop :: "(bool option \<times> loop_input) list \<Rightarrow> tracker \<Rightarrow> bool
    \<Rightarrow> event list \<times> tracker \<times> bool" where
  "hand_tracking_loop [] st enabled = ([], st, enabled)"
| "hand_tracking_loop (p # ps) st enabled =
     (let enabled0 = (case fst p of None \<Rightarrow> enabled | Some b \<Rightarrow> b);
          (evs, st1, enabled1) = hand_tracking_pass (snd p) st enabled0;
          (evs', r) = hand_tracking_loop ps st1 enabled1
      in (evs @ evs', r))"

section \<open>The gesture classifier: \<open>DollarRecognizer\<close>\<close>

record Point =
  px :: real
  py :: real

text \<open>\<open>_distance\<close> and \<open>_path_length\<close>.\<close>

definition distance :: "Point \<Rightarrow> Point \<Rightarrow> real" where
  "distance p1 p2 = sqrt ((px p1 - px p2)\<^sup>2 + (py p1 - py p2)\<^sup>2)"

fun path_length :: "Point list \<Rightarrow> real" where
  "path_length (p # q # ps) = distance p q + path_length (q # ps)"
| "path_length ps = 0"

text \<open>\<open>points.insert(i, q)\<close>, for \<open>0 \<le> i \<le> len(points)\<close>.\<close>

definition list_insert :: "nat \<Rightarrow> 'a \<Rightarrow> 'a list \<Rightarrow> 'a list" where
  "list_insert i q points = take i points @ q # drop i points"

text \<open>
  The \<open>while\<close> loop of \<open>_resample\<close> (lines 299--310) on its variables \<open>points\<close>, \<open>i\<close>,
  \<open>d\<close> and \<open>new_points\<close>.  The loop inserts into the list it walks, and it does not end
  for every \<open>interval\<close>: \<open>None\<close> is a loop that runs forever.  A division by \<open>d1 = 0.0\<close>
  raises.  The result is \<open>new_points\<close> and the list \<open>points\<close> as the loop leaves it;
  the caller's list is that same object.
\<close>

partial_function (option) resample_loop :: "real \<Rightarrow> Point list \<Rightarrow> nat \<Rightarrow> real \<Rightarrow> Point list
    \<Rightarrow> (error + Point list \<times> Point list) option" where
  "resample_loop interval points i d new_points =
     (if i < length points then
        (let d1 = distance (points ! (i - 1)) (points ! i) in
         if d + d1 \<ge> interval then
           (if d1 = 0 then Some (Inl ZeroDivisionError)
            else
              (let qx = px (points ! (i - 1)) +
                        ((interval - d) / d1) * (px (points ! i) - px (points ! (i - 1)));
                   qy = py (points ! (i - 1)) +
                        ((interval - d) / d1) * (py (points ! i) - py (points ! (i - 1)));
                   q = \<lparr>px = qx, py = qy\<rparr>
               in resample_loop interval (list_insert i q points) (i + 1) 0 (new_points @ [q])))
         else resample_loop interval points (i + 1) (d + d1) new_points)
      else Some (Inr (new_points, points)))"

text \<open>
  The point \<open>q\<close> of lines 302--304, for \<open>points[i-1] = a\<close> and \<open>points[i] = b\<close>.
\<close>

definition interpolated :: "real \<Rightarrow> real \<Rightarrow> Point \<Rightarrow> Point \<Rightarrow> Point" where
  "interpolated interval d a b =
     \<lparr>px = px a + ((interval - d) / distance a b) * (px b - px a),
      py = py a + ((interval - d) / distance a b) * (py b - py a)\<rparr>"

text \<open>
  \<open>_resample(points, n)\<close>.  With fewer than two points the list itself is returned.
  \<open>n = 1\<close> divides by zero.
\<close>

definition resample :: "Point list \<Rightarrow> int \<Rightarrow> (error + Point list \<times> Point list) option" where
  "resample points n =
     (if length points < 2 then Some (Inr (points, points))
      else if n - 1 = 0 then Some (Inl ZeroDivisionError)
      else
        (let interval = path_length points / of_int (n - 1) in
         case resample_loop interval points 1 0 [points ! 0] of
           None \<Rightarrow> None
         | Some (Inl e) \<Rightarrow> Some (Inl e)
         | Some (Inr (new_points, points')) \<Rightarrow>
             Some (Inr (if int (length new_points) = n - 1
                        then new_points @ [last points'] else new_points, points'))))"

text \<open>A score: a float that may be \<open>float('inf')\<close>.\<close>

datatype score = Finite real | Infinity

fun score_less :: "score \<Rightarrow> score \<Rightarrow> bool" where
  "score_less (Finite a) (Finite b) = (a < b)"
| "score_less (Finite a) Infinity = True"
| "score_less Infinity s = False"

text \<open>\<open>_path_distance\<close>; \<open>d / len(pts1)\<close> raises for two empty lists.\<close>

definition path_distance :: "Point list \<Rightarrow> Point list \<Rightarrow> error + score" where
  "path_distance pts1 pts2 =
     (if length pts1 \<noteq> length pts2 then Inr Infinity
      else if length pts1 = 0 then Inl ZeroDivisionError
      else Inr (Finite ((\<Sum>i \<leftarrow> [0..<length pts1]. distance (pts1 ! i) (pts2 ! i)) /
                        of_nat (length pts1))))"

text \<open>The loop of lines 346--351 over the templates, on \<open>best_score\<close> and \<open>best_gesture\<close>.\<close>

fun best_match :: "Point list \<Rightarrow> (string \<times> Point list) list \<Rightarrow> score \<Rightarrow> string option
    \<Rightarrow> error + score \<times> string option" where
  "best_match points [] best_score best_gesture = Inr (best_score, best_gesture)"
| "best_match points (t # ts) best_score best_gesture =
     (case path_distance points (snd t) of
        Inl e \<Rightarrow> Inl e
      | Inr sc \<Rightarrow>
          if score_less sc best_score then best_match points ts sc (Some (fst t))
          else best_match points ts best_score best_gesture)"

record recognizer =
  num_points :: int
  last_gesture_time :: real
  points :: "Point list"
  templates :: "(string \<times> Point list) list"

text \<open>\<open>_create_templates\<close>: the two swipes, each of eleven points, resampled.\<close>

definition left_points :: "Point list" where
  "left_points = map (\<lambda>i. \<lparr>px = 1.0 - of_nat i / 10.0, py = 0.5\<rparr>) [0..<11]"

definition right_points :: "Point list" where
  "right_points = map (\<lambda>i. \<lparr>px = of_nat i / 10.0, py = 0.5\<rparr>) [0..<11]"

definition create_templates :: "int \<Rightarrow> (error + (string \<times> Point list) list) option" where
  "create_templates n =
     (case resample left_points n of
        None \<Rightarrow> None
      | Some (Inl e) \<Rightarrow> Some (Inl e)
      | Some (Inr (left, lp)) \<Rightarrow>
          (case resample right_points n of
             None \<Rightarrow> None
           | Some (Inl e) \<Rightarrow> Some (Inl e)
           | Some (Inr (right, rp)) \<Rightarrow> Some (Inr [(''left'', left), (''right'', right)])))"

text \<open>\<open>DollarRecognizer(num_points)\<close>.\<close>

definition DollarRecognizer :: "int \<Rightarrow> (error + recognizer) option" where
  "DollarRecognizer n =
     (case create_templates n of
        None \<Rightarrow> None
      | Some (Inl e) \<Rightarrow> Some (Inl e)
      | Some (Inr ts) \<Rightarrow>
          Some (Inr \<lparr>num_points = n, last_gesture_time = 0, points = [], templates = ts\<rparr>))"

text \<open>
  \<open>recognize\<close>, called at time \<open>t\<close>.  \<open>_resample\<close> is handed \<open>self.points\<close> itself, so
  the points it inserts are inserted into the captured stroke; the stroke is emptied
  only on a match.  The log line 353 reads \<open>scores['left']\<close> and \<open>scores['right']\<close>,
  which raises when a template of that name is missing.  The result is the returned label (\<open>None\<close>: no match) and the
  recognizer afterwards.
\<close>

definition recognize :: "real \<Rightarrow> recognizer \<Rightarrow> (error + string option \<times> recognizer) option" where
  "recognize t self =
     (if length (points self) < 5 then Some (Inr (None, self))
      else
        (case resample (points self) (num_points self) of
           None \<Rightarrow> None
         | Some (Inl e) \<Rightarrow> Some (Inl e)
         | Some (Inr (pts, stroke)) \<Rightarrow>
             (case best_match pts (templates self) Infinity None of
                Inl e \<Rightarrow> Some (Inl e)
              | Inr (best_score, best_gesture) \<Rightarrow>
                  if ''left'' \<notin> fst ` set (templates self) \<or>
                     ''right'' \<notin> fst ` set (templates self) then Some (Inl KeyError)
                  else if score_less best_score (Finite 0.5) then
                    Some (Inr (best_gesture,
                               self\<lparr>last_gesture_time := t, points := []\<rparr>))
                  else Some (Inr (None, self\<lparr>points := stroke\<rparr>)))))"

text \<open>
  A recognizer is made, a stroke is captured into its buffer and \<open>recognize\<close> is
  called at time \<open>t\<close>: the returned label and the captured stroke afterwards.
\<close>

definition recognize_stroke :: "int \<Rightarrow> Point list \<Rightarrow> real
    \<Rightarrow> (error + string option \<times> Point list) option" where
  "recognize_stroke n stroke t =
     (case DollarRecognizer n of
        None \<Rightarrow> None
      | Some (Inl e) \<Rightarrow> Some (Inl e)
      | Some (Inr self) \<Rightarrow>
          (case recognize t (self\<lparr>points := stroke\<rparr>) of
             None \<Rightarrow> None
           | Some (Inl e) \<Rightarrow> Some (Inl e)
           | Some (Inr (gesture, self')) \<Rightarrow> Some (Inr (gesture, points self'))))"

section \<open>What the resampling loop achieves\<close>

text \<open>
  The loop is at the point \<open>prev\<close> with the points \<open>rest\<close> still ahead and has walked
  \<open>d\<close> since the last point it produced.  \<open>loop_post\<close> relates this to the \<open>r\<close> points
  \<open>qs\<close> that the loop appends to \<open>new_points\<close> and to the list \<open>rest'\<close> that stands in
  place of \<open>rest\<close> when the loop ends: \<open>rest'\<close> is \<open>rest\<close> with \<open>r\<close> points inserted,
  the path has the same length and the same end, the last point produced is the end of
  the path, and the \<open>k\<close>-th point produced is a point of \<open>rest'\<close> at which the path from
  \<open>prev\<close> has length \<open>(k + 1) * interval - d\<close>.
\<close>

definition loop_post :: "real \<Rightarrow> real \<Rightarrow> Point \<Rightarrow> Point list \<Rightarrow> nat \<Rightarrow> Point list \<Rightarrow> Point list
    \<Rightarrow> bool" where
  "loop_post interval d prev rest r qs rest' \<longleftrightarrow>
     length qs = r \<and> length rest' = length rest + r \<and> subseq rest rest' \<and>
     path_length (prev # rest') = path_length (prev # rest) \<and>
     last (prev # rest') = last (prev # rest) \<and>
     (0 < r \<longrightarrow> last qs = last (prev # rest)) \<and>
     (\<forall>k<r. \<exists>j<length rest'. rest' ! j = qs ! k \<and>
        path_length (prev # take (Suc j) rest') = real (Suc k) * interval - d)"

section \<open>The formulas of the specification\<close>

text \<open>
  The minute value as the specification writes it, with rounding to the nearest
  integer: \<open>clamp(450 + round((x - 0.5) * 2 * 240), 0, 1439)\<close>.
\<close>

definition spec_minutes :: "real \<Rightarrow> int" where
  "spec_minutes x = max 0 (min 1439 (450 + round ((x - 0.5) * 2 * 240)))"

text \<open>The mean pointwise distance of two point lists of one length.\<close>

definition mean_distance :: "Point list \<Rightarrow> Point list \<Rightarrow> real" where
  "mean_distance pts1 pts2 =
     (\<Sum>i \<leftarrow> [0..<length pts1]. distance (pts1 ! i) (pts2 ! i)) / of_nat (length pts1)"

section \<open>Lemmas about the primitives and the wheel sector\<close>

lemma wheel_theta_range: "0 \<le> wheel_theta a \<and> wheel_theta a < 2 * pi"
proof -
  have p: "0 < 2 * pi" by simp
  have f1: "of_int \<lfloor>a / (2 * pi)\<rfloor> \<le> a / (2 * pi)" by simp
  have f2: "a / (2 * pi) < of_int \<lfloor>a / (2 * pi)\<rfloor> + 1" by linarith
  from f1 have "of_int \<lfloor>a / (2 * pi)\<rfloor> * (2 * pi) \<le> a"
    by (simp only: pos_le_divide_eq [OF p])
  moreover from f2 have "a < (of_int \<lfloor>a / (2 * pi)\<rfloor> + 1) * (2 * pi)"
    by (simp only: pos_divide_less_eq [OF p])
  ultimately show ?thesis
    by (simp add: wheel_theta_def py_fmod_def algebra_simps)
qed

lemma wheel_scaled_range:
  "0 \<le> wheel_theta a / (2 * pi) * 6 \<and> wheel_theta a / (2 * pi) * 6 < 6"
  using wheel_theta_range [of a] by (simp add: field_simps)

lemma wheel_sector_floor: "wheel_sector a = \<lfloor>wheel_theta a / (2 * pi) * 6\<rfloor>"
proof -
  let ?v = "wheel_theta a / (2 * pi) * 6"
  have r: "0 \<le> ?v" "?v < 6" using wheel_scaled_range [of a] by simp_all
  then have "0 \<le> \<lfloor>?v\<rfloor>" "\<lfloor>?v\<rfloor> < 6" by (simp_all add: floor_less_iff)
  then have "\<lfloor>?v\<rfloor> mod 6 = \<lfloor>?v\<rfloor>" by simp
  with r show ?thesis
    by (simp add: wheel_sector_def NUM_WHEEL_SECTORS_def MEDICATION_SYMBOLS_def py_int_def Let_def)
qed

lemma wheel_sector_range: "0 \<le> wheel_sector a \<and> wheel_sector a < 6"
  using wheel_scaled_range [of a] by (simp add: wheel_sector_floor floor_less_iff)

lemma wheel_theta_id: "0 \<le> a \<Longrightarrow> a < 2 * pi \<Longrightarrow> wheel_theta a = a"
proof -
  assume a: "0 \<le> a" "a < 2 * pi"
  then have "\<lfloor>a / (2 * pi)\<rfloor> = 0" by (simp add: floor_eq_iff)
  then show ?thesis by (simp add: wheel_theta_def py_fmod_def)
qed

lemma wheel_sector_mono:
  assumes "0 \<le> a" "a \<le> b" "b < 2 * pi"
  shows "wheel_sector a \<le> wheel_sector b"
proof -
  have "wheel_theta a = a" "wheel_theta b = b" using assms by (simp_all add: wheel_theta_id)
  moreover have "a / (2 * pi) * 6 \<le> b / (2 * pi) * 6" using assms by (simp add: field_simps)
  ultimately show ?thesis by (simp add: wheel_sector_floor floor_mono)
qed

lemma wheel_sector_two_pi: "wheel_sector (2 * pi) = 0"
  by (simp add: wheel_sector_floor wheel_theta_def py_fmod_def)

lemma wheel_sector_last:
  assumes "2 * pi * 5 / 6 \<le> a" "a < 2 * pi"
  shows "wheel_sector a = 5"
proof -
  have "0 \<le> a" using assms(1) pi_gt_zero by (smt (verit) divide_nonneg_nonneg mult_nonneg_nonneg)
  then have t: "wheel_theta a = a" using assms by (simp add: wheel_theta_id)
  have "5 \<le> a / (2 * pi) * 6" "a / (2 * pi) * 6 < 6" using assms by (simp_all add: field_simps)
  then have "\<lfloor>a / (2 * pi) * 6\<rfloor> = 5" by (simp add: floor_eq_iff)
  with t show ?thesis by (simp add: wheel_sector_floor)
qed

section \<open>Lemmas about the messages of the engine\<close>

lemma broadcasts_append: "broadcasts (xs @ ys) = broadcasts xs @ broadcasts ys"
  by (induction xs rule: broadcasts.induct) simp_all

lemma broadcasts_concat: "broadcasts (concat xss) = concat (map broadcasts xss)"
  by (induction xss) (simp_all add: broadcasts_append)

lemma broadcasts_locked_scan:
  "broadcasts (locked_scan body objs) = concat (map (\<lambda>item. broadcasts (body item)) objs)"
  by (simp add: locked_scan_def broadcasts_append broadcasts_concat comp_def)

lemma concat_map_if: "concat (map (\<lambda>x. if P x then [g x] else []) xs) = map g (filter P xs)"
  by (induction xs) simp_all

lemma broadcasts_select_body:
  "broadcasts (select_body record sector item) =
     (if r_symbol_id (snd item) = SELECT_SYMBOL \<and> marker_dist (snd item) record < 0.08
      then [Wheel_select_confirm sector (medication_at sector) ''patient''] else [])"
  by (simp add: select_body_def Let_def)

lemma broadcasts_nurse_select_body:
  "broadcasts (nurse_select_body record sector item) =
     (if (r_symbol_id (snd item) = VIEW_PATIENT_INFO_SYMBOL \<or>
          r_symbol_id (snd item) = EDIT_MEDICATIONS_SYMBOL) \<and> marker_dist (snd item) record < 0.08
      then [if r_symbol_id (snd item) = VIEW_PATIENT_INFO_SYMBOL
            then Nurse_wheel_select_confirm sector (medication_at sector)
            else Nurse_edit_med_select sector (medication_at sector)] else [])"
  by (simp add: nurse_select_body_def Let_def)

lemma broadcasts_patient_wheel:
  "broadcasts (patient_wheel_logic objs record) =
     (if r_symbol_id record = ROTATE_SYMBOL \<and> r_event record = Add
      then [Wheel_open (r_x record) (r_y record) ''patient''] else []) @
     (if r_symbol_id record = ROTATE_SYMBOL \<and> r_event record \<noteq> Remove
      then Wheel_hover (wheel_sector (r_angle record)) (wheel_theta (r_angle record))
             (r_x record) (r_y record) (medication_at (wheel_sector (r_angle record))) ''patient'' #
           map (\<lambda>item. Wheel_select_confirm (wheel_sector (r_angle record))
                         (medication_at (wheel_sector (r_angle record))) ''patient'')
             (filter (\<lambda>item. r_symbol_id (snd item) = SELECT_SYMBOL \<and>
                              marker_dist (snd item) record < 0.08) objs)
      else [])"
proof -
  have e: "r_event record \<in> {Add, Update} \<longleftrightarrow> r_event record \<noteq> Remove"
    by (cases "r_event record") simp_all
  show ?thesis
    unfolding patient_wheel_logic_def e
    by (simp add: Let_def broadcasts_append broadcasts_locked_scan broadcasts_select_body
        concat_map_if)
qed

lemma broadcasts_nurse_wheel:
  "broadcasts (nurse_wheel_logic objs record) =
     (if r_symbol_id record = NURSE_MODE_SYMBOL \<and> r_event record = Add
      then [Nurse_wheel_open (r_x record) (r_y record)] else []) @
     (if r_symbol_id record = NURSE_MODE_SYMBOL \<and> r_event record \<noteq> Remove
      then Nurse_wheel_hover (wheel_sector (r_angle record)) (wheel_theta (r_angle record))
             (r_x record) (r_y record) (medication_at (wheel_sector (r_angle record))) #
           map (\<lambda>item. if r_symbol_id (snd item) = VIEW_PATIENT_INFO_SYMBOL
                        then Nurse_wheel_select_confirm (wheel_sector (r_angle record))
                               (medication_at (wheel_sector (r_angle record)))
                        else Nurse_edit_med_select (wheel_sector (r_angle record))
                               (medication_at (wheel_sector (r_angle record))))
             (filter (\<lambda>item. (r_symbol_id (snd item) = VIEW_PATIENT_INFO_SYMBOL \<or>
                               r_symbol_id (snd item) = EDIT_MEDICATIONS_SYMBOL) \<and>
                              marker_dist (snd item) record < 0.08) objs)
      else [])"
proof -
  have e: "r_event record \<in> {Add, Update} \<longleftrightarrow> r_event record \<noteq> Remove"
    by (cases "r_event record") simp_all
  show ?thesis
    unfolding nurse_wheel_logic_def e
    by (simp add: Let_def broadcasts_append broadcasts_locked_scan broadcasts_nurse_select_body
        concat_map_if)
qed

lemmas symbol_defs = ROTATE_SYMBOL_def SELECT_SYMBOL_def BACK_SYMBOL_def NURSE_MODE_SYMBOL_def
  VIEW_PATIENT_INFO_SYMBOL_def EDIT_MEDICATIONS_SYMBOL_def

lemma broadcasts_process_rotate:
  "r_symbol_id record = ROTATE_SYMBOL \<Longrightarrow>
   broadcasts (fst (process_logic_and_broadcast objs enabled record)) =
     Tuio_obj record # broadcasts (patient_wheel_logic objs record)"
  by (simp add: process_logic_and_broadcast_def back_logic_def gesture_toggle_logic_def
      nurse_wheel_logic_def symbol_defs broadcasts_append)

lemma broadcasts_process_nurse:
  "r_symbol_id record = NURSE_MODE_SYMBOL \<Longrightarrow>
   broadcasts (fst (process_logic_and_broadcast objs enabled record)) =
     Tuio_obj record # broadcasts (nurse_wheel_logic objs record)"
  by (simp add: process_logic_and_broadcast_def back_logic_def gesture_toggle_logic_def
      patient_wheel_logic_def symbol_defs broadcasts_append)

lemma num_wheel_sectors: "NUM_WHEEL_SECTORS = 6"
  by (simp add: NUM_WHEEL_SECTORS_def MEDICATION_SYMBOLS_def)

section \<open>Lemmas about the time adjustment\<close>

lemma adjust_time_bounds: "0 \<le> adjust_time b x \<and> adjust_time b x \<le> 1439"
  by (simp add: adjust_time_def Let_def)

lemma py_int_mono: "a \<le> b \<Longrightarrow> py_int a \<le> py_int b"
  unfolding py_int_def
  by (smt (verit) ceiling_mono floor_mono floor_le_ceiling ceiling_le_zero zero_le_floor)

lemma adjust_time_unit:
  assumes "0 \<le> x" "x \<le> 1"
  shows "adjust_time 450 x = 450 + py_int ((x - 0.5) * 2 * 240)"
    and "210 \<le> adjust_time 450 x" and "adjust_time 450 x \<le> 690"
proof -
  have lo: "(0 - 0.5) * 2 * 240 \<le> (x - 0.5) * 2 * (240::real)" using assms by simp
  have hi: "(x - 0.5) * 2 * 240 \<le> (1 - 0.5) * 2 * (240::real)" using assms by simp
  have "py_int ((0 - 0.5) * 2 * 240) = -240" by (simp add: py_int_def)
  moreover have "py_int ((1 - 0.5) * 2 * 240) = 240" by (simp add: py_int_def)
  ultimately have b: "-240 \<le> py_int ((x - 0.5) * 2 * 240)" "py_int ((x - 0.5) * 2 * 240) \<le> 240"
    using py_int_mono [OF lo] py_int_mono [OF hi] by simp_all
  then show "adjust_time 450 x = 450 + py_int ((x - 0.5) * 2 * 240)"
    and "210 \<le> adjust_time 450 x" and "adjust_time 450 x \<le> 690"
    by (simp_all add: adjust_time_def Let_def)
qed

lemma marker_dist_same_x:
  "r_x srec = r_x record \<Longrightarrow> marker_dist srec record = \<bar>r_y srec - r_y record\<bar>"
  by (simp add: marker_dist_def hypot_def Let_def)


lemma wheel_sector_zero: "wheel_sector 0 = 0"
  by (simp add: wheel_sector_floor wheel_theta_def py_fmod_def)

lemma wheel_theta_zero: "wheel_theta 0 = 0"
  by (simp add: wheel_theta_def py_fmod_def)

lemma medication_at_zero: "medication_at 0 = ''Paracetamol''"
  by (simp add: medication_at_def MEDICATION_SYMBOLS_def)

section \<open>Lemmas about the registry\<close>

lemma latest_objects_handle_obj:
  "latest_objects (snd (handle_obj event_type obj st)) =
     (case obj_symbol_id obj of
        None \<Rightarrow> latest_objects st
      | Some symbol_id \<Rightarrow>
          if event_type = Remove then AList.delete (obj_session_id obj) (latest_objects st)
          else AList.update (obj_session_id obj)
                 \<lparr>r_event = event_type, r_symbol_id = symbol_id,
                  r_session_id = obj_session_id obj,
                  r_x = obj_x obj, r_y = obj_y obj, r_angle = obj_angle obj\<rparr>
                 (latest_objects st))"
  by (cases event_type) (simp_all add: handle_obj_def Let_def split_beta split: option.split)

lemma handle_all_append: "handle_all (xs @ ys) st = handle_all ys (handle_all xs st)"
  by (induction xs arbitrary: st) simp_all

lemma distinct_handle_obj:
  "distinct (map fst (latest_objects st)) \<Longrightarrow>
   distinct (map fst (latest_objects (snd (handle_obj event_type obj st))))"
  by (simp add: latest_objects_handle_obj distinct_update distinct_delete split: option.split)

lemma distinct_handle_all:
  "distinct (map fst (latest_objects st)) \<Longrightarrow>
   distinct (map fst (latest_objects (handle_all es st)))"
  by (induction es arbitrary: st) (simp_all add: distinct_handle_obj)

lemma map_of_handle_obj_other:
  "obj_session_id obj \<noteq> s \<Longrightarrow>
   map_of (latest_objects (snd (handle_obj event_type obj st))) s = map_of (latest_objects st) s"
  by (simp add: latest_objects_handle_obj update_conv' delete_conv' split: option.split)

lemma map_of_handle_all_other:
  "\<forall>e \<in> set es. obj_session_id (snd e) \<noteq> s \<Longrightarrow>
   map_of (latest_objects (handle_all es st)) s = map_of (latest_objects st) s"
  by (induction es arbitrary: st) (simp_all add: map_of_handle_obj_other)

lemma map_of_handle_obj_absent:
  "map_of (latest_objects st) s = None \<Longrightarrow>
   obj_session_id obj = s \<longrightarrow> event_type = Remove \<Longrightarrow>
   map_of (latest_objects (snd (handle_obj event_type obj st))) s = None"
  by (auto simp add: latest_objects_handle_obj update_conv' delete_conv' split: option.split)

lemma map_of_handle_all_absent:
  "map_of (latest_objects st) s = None \<Longrightarrow>
   \<forall>e \<in> set es. obj_session_id (snd e) = s \<longrightarrow> fst e = Remove \<Longrightarrow>
   map_of (latest_objects (handle_all es st)) s = None"
proof (induction es arbitrary: st)
  case Nil
  then show ?case by simp
next
  case (Cons e es)
  from Cons.prems have "map_of (latest_objects (snd (handle_obj (fst e) (snd e) st))) s = None"
    by (intro map_of_handle_obj_absent) simp_all
  from Cons.IH [OF this] Cons.prems(2) show ?case by simp
qed

lemma map_of_None_keys: "map_of al k = None \<longleftrightarrow> k \<notin> fst ` set al"
  by (simp add: map_of_eq_None_iff)

section \<open>Lemmas about the hub\<close>

lemma send_loop_eq:
  "send_loop sendall data cs dead n calls =
     (dead @ filter (\<lambda>c. \<not> sendall c data) cs,
      n + length (filter (\<lambda>c. sendall c data) cs),
      calls @ map (\<lambda>c. (c, data)) cs)"
  by (induction cs arbitrary: dead n calls) simp_all

lemma remove_dead_filter:
  "\<forall>y \<in> set ys. \<not> P y \<Longrightarrow>
   remove_dead (filter P xs) (ys @ xs) = Inr (ys @ filter (\<lambda>x. \<not> P x) xs)"
proof (induction xs arbitrary: ys)
  case Nil
  then show ?case by simp
next
  case (Cons x xs)
  show ?case
  proof (cases "P x")
    case True
    with Cons.prems have "x \<notin> set ys" by blast
    then have "remove1 x (ys @ x # xs) = ys @ xs" by (simp add: remove1_append)
    with True Cons.IH [OF Cons.prems] show ?thesis by simp
  next
    case False
    with Cons.prems have "\<forall>y \<in> set (ys @ [x]). \<not> P y" by simp
    from Cons.IH [OF this] False show ?thesis by simp
  qed
qed

section \<open>Lemmas about the locks\<close>

lemma sweeps_append:
  "sweeps held (xs @ ys) = sweeps held xs @ sweeps (held_after held xs) ys"
  by (induction held xs rule: sweeps.induct) simp_all

lemma held_after_append:
  "held_after held (xs @ ys) = held_after (held_after held xs) ys"
  by (induction held xs rule: held_after.induct) simp_all

lemma sweeps_map_Broadcast:
  "sweeps held (map Broadcast es) = map (\<lambda>e. (e, insert clients_lock held)) es"
  by (induction es) simp_all

lemma held_after_map_Broadcast: "held_after held (map Broadcast es) = held"
  by (induction es) simp_all

lemma select_body_Broadcast:
  "select_body record sector item = map Broadcast (broadcasts (select_body record sector item))"
  by (simp add: select_body_def Let_def)

lemma nurse_select_body_Broadcast:
  "nurse_select_body record sector item =
     map Broadcast (broadcasts (nurse_select_body record sector item))"
  by (simp add: nurse_select_body_def Let_def)

lemma concat_map_Broadcast:
  "(\<And>item. body item = map Broadcast (broadcasts (body item))) \<Longrightarrow>
   concat (map body objs) = map Broadcast (concat (map (\<lambda>item. broadcasts (body item)) objs))"
proof (induction objs)
  case Nil
  then show ?case by simp
next
  case (Cons a objs)
  have "body a = map Broadcast (broadcasts (body a))" by (rule Cons.prems)
  then show ?case using Cons.IH [OF Cons.prems] by (simp del: map_map)
qed

lemma sweeps_locked_scan:
  assumes "\<And>item. body item = map Broadcast (broadcasts (body item))"
  shows "sweeps held (locked_scan body objs) =
           map (\<lambda>e. (e, insert clients_lock (insert latest_objects_lock held)))
             (concat (map (\<lambda>item. broadcasts (body item)) objs))"
    and "held_after held (locked_scan body objs) = held - {latest_objects_lock}"
  unfolding locked_scan_def concat_map_Broadcast [of body, OF assms]
  by (simp_all add: sweeps_append held_after_append sweeps_map_Broadcast held_after_map_Broadcast)

lemma confirm_select_body:
  "e \<in> set (broadcasts (select_body record sector item)) \<Longrightarrow> is_confirmation e"
  by (auto simp add: broadcasts_select_body split: if_splits)

lemma confirm_nurse_select_body:
  "e \<in> set (broadcasts (nurse_select_body record sector item)) \<Longrightarrow> is_confirmation e"
  by (auto simp add: broadcasts_nurse_select_body split: if_splits)

lemma sweeps_scan_confirm:
  assumes b: "\<And>item. body item = map Broadcast (broadcasts (body item))"
    and c: "\<And>item e. e \<in> set (broadcasts (body item)) \<Longrightarrow> is_confirmation e"
  shows "sweeps {} (locked_scan body objs) = map sweep_locks (broadcasts (locked_scan body objs))"
proof -
  have "map (\<lambda>e. (e, insert clients_lock (insert latest_objects_lock {})))
          (concat (map (\<lambda>item. broadcasts (body item)) objs)) =
        map sweep_locks (concat (map (\<lambda>item. broadcasts (body item)) objs))"
    by (rule map_cong) (auto simp add: sweep_locks_def dest: c)
  then show ?thesis
    by (simp only: sweeps_locked_scan(1) [of body, OF b] broadcasts_locked_scan)
qed

lemma sweeps_patient_wheel:
  "sweeps {} (patient_wheel_logic objs record) =
     map sweep_locks (broadcasts (patient_wheel_logic objs record))"
  "held_after {} (patient_wheel_logic objs record) = {}"
  unfolding patient_wheel_logic_def
  by (simp_all add: Let_def sweeps_append held_after_append broadcasts_append sweep_locks_def
      sweeps_scan_confirm [of "select_body record sector" for sector, OF select_body_Broadcast confirm_select_body]
      sweeps_locked_scan(2) [of "select_body record sector" for sector, OF select_body_Broadcast])

lemma sweeps_nurse_wheel:
  "sweeps {} (nurse_wheel_logic objs record) =
     map sweep_locks (broadcasts (nurse_wheel_logic objs record))"
  "held_after {} (nurse_wheel_logic objs record) = {}"
  unfolding nurse_wheel_logic_def
  by (simp_all add: Let_def sweeps_append held_after_append broadcasts_append sweep_locks_def
      sweeps_scan_confirm [of "nurse_select_body record sector" for sector, OF nurse_select_body_Broadcast confirm_nurse_select_body]
      sweeps_locked_scan(2) [of "nurse_select_body record sector" for sector, OF nurse_select_body_Broadcast])

lemma sweeps_back:
  "sweeps {} (fst (back_logic enabled record)) =
     map sweep_locks (broadcasts (fst (back_logic enabled record)))"
  "held_after {} (fst (back_logic enabled record)) = {}"
  by (simp_all add: back_logic_def sweep_locks_def)

lemma sweeps_gesture_toggle:
  "sweeps {} (fst (gesture_toggle_logic objs enabled record)) =
     map sweep_locks (broadcasts (fst (gesture_toggle_logic objs enabled record)))"
  "held_after {} (fst (gesture_toggle_logic objs enabled record)) = {}"
  by (simp_all add: gesture_toggle_logic_def sweep_locks_def)

lemma fst_process:
  "fst (process_logic_and_broadcast objs enabled record) =
     [Broadcast (Tuio_obj record)] @ patient_wheel_logic objs record @
     nurse_wheel_logic objs record @ fst (back_logic enabled record) @
     fst (gesture_toggle_logic objs (snd (back_logic enabled record)) record)"
  by (simp add: process_logic_and_broadcast_def split_beta)

lemma sweeps_process:
  "sweeps {} (fst (process_logic_and_broadcast objs enabled record)) =
     map sweep_locks (broadcasts (fst (process_logic_and_broadcast objs enabled record)))"
  "held_after {} (fst (process_logic_and_broadcast objs enabled record)) = {}"
  unfolding fst_process
  by (simp_all add: sweeps_append held_after_append broadcasts_append
      sweeps_patient_wheel sweeps_nurse_wheel sweeps_back sweeps_gesture_toggle sweep_locks_def)

lemma fst_handle_obj:
  "fst (handle_obj event_type obj st) =
     (case obj_symbol_id obj of
        None \<Rightarrow> []
      | Some symbol_id \<Rightarrow>
          [Acquire latest_objects_lock, Release latest_objects_lock] @
          fst (process_logic_and_broadcast (latest_objects (snd (handle_obj event_type obj st)))
                 (gesture_detection_enabled st)
                 \<lparr>r_event = event_type, r_symbol_id = symbol_id,
                  r_session_id = obj_session_id obj,
                  r_x = obj_x obj, r_y = obj_y obj, r_angle = obj_angle obj\<rparr>))"
  by (cases event_type) (simp_all add: handle_obj_def Let_def split_beta split: option.split)

section \<open>Lemmas about the controller\<close>

lemma time_str_450: "time_str 450 = ''07:30''"
  by (simp add: time_str_def fmt_02d_def Let_def digit_char_def)

lemma time_str_570: "time_str 570 = ''09:30''"
  by (simp add: time_str_def fmt_02d_def Let_def digit_char_def)

lemma is_fist_closed:
  "is_fist \<lparr>wrist = p, thumb_tip = p, index_tip = p, middle_tip = p, ring_tip = p, pinky_tip = p\<rparr>"
  by (simp add: is_fist_def distance_3d_def Let_def)

lemma distance_3d_x:
  "lm_y p = lm_y q \<Longrightarrow> lm_z p = lm_z q \<Longrightarrow> distance_3d p q = \<bar>lm_x p - lm_x q\<bar>"
  by (simp add: distance_3d_def)

lemma hand_tracking_loop_idle:
  "\<not> gesture_active st \<Longrightarrow> \<forall>p \<in> set ps. fst p \<noteq> Some True \<Longrightarrow>
   hand_tracking_loop ps st False = ([], st, False)"
proof (induction ps)
  case Nil
  then show ?case by simp
next
  case (Cons p ps)
  from Cons.prems(2) have "(case fst p of None \<Rightarrow> False | Some b \<Rightarrow> b) = False"
    by (cases "fst p") auto
  with Cons show ?case by (simp add: hand_tracking_pass_def)
qed

section \<open>Lemmas about resampling\<close>

lemma distance_nonneg: "0 \<le> distance p q"
  by (simp add: distance_def)

lemma distance_eq_0: "distance p q = 0 \<longleftrightarrow> p = q" for p q :: Point
proof
  assume "distance p q = 0"
  then have "(px p - px q)\<^sup>2 + (py p - py q)\<^sup>2 = 0"
    by (simp add: distance_def)
  then have "px p = px q" "py p = py q"
    by (simp_all add: sum_power2_eq_zero_iff)
  then show "p = q" by simp
next
  assume "p = q"
  then show "distance p q = 0" by (simp add: distance_def)
qed

lemma path_length_nonneg: "0 \<le> path_length ps"
  by (induction ps rule: path_length.induct) (simp_all add: distance_nonneg)

lemma path_length_Cons: "path_length (a # b # ps) = distance a b + path_length (b # ps)"
  by simp

lemma lerp_right_sq:
  "(xa + t * (xb - xa) - xb)\<^sup>2 + (ya + t * (yb - ya) - yb)\<^sup>2 =
   (1 - t)\<^sup>2 * ((xa - xb)\<^sup>2 + (ya - yb)\<^sup>2)" for t :: real
  by (simp add: power2_eq_square algebra_simps)

lemma lerp_left_sq:
  "(xa - (xa + t * (xb - xa)))\<^sup>2 + (ya - (ya + t * (yb - ya)))\<^sup>2 =
   t\<^sup>2 * ((xa - xb)\<^sup>2 + (ya - yb)\<^sup>2)" for t :: real
  by (simp add: power2_eq_square algebra_simps)

lemma distance_interpolated_right:
  assumes "0 < distance a b" "I - d \<le> distance a b"
  shows "distance (interpolated I d a b) b = distance a b - (I - d)"
proof -
  let ?d1 = "distance a b"
  let ?t = "(I - d) / ?d1"
  have t: "?t \<le> 1" using assms by (simp add: field_simps)
  have "(px (interpolated I d a b) - px b)\<^sup>2 + (py (interpolated I d a b) - py b)\<^sup>2
        = (1 - ?t)\<^sup>2 * ((px a - px b)\<^sup>2 + (py a - py b)\<^sup>2)"
    unfolding interpolated_def by (simp only: Point.simps lerp_right_sq)
  then have "distance (interpolated I d a b) b = sqrt ((1 - ?t)\<^sup>2 * ((px a - px b)\<^sup>2 + (py a - py b)\<^sup>2))"
    by (simp only: distance_def)
  also have "\<dots> = \<bar>1 - ?t\<bar> * ?d1"
    by (simp only: real_sqrt_mult real_sqrt_abs distance_def)
  also have "\<dots> = (1 - ?t) * ?d1" using t by (simp only: abs_of_nonneg diff_ge_0_iff_ge)
  also have "\<dots> = ?d1 - (I - d)" using assms(1) by (simp add: field_simps)
  finally show ?thesis .
qed

lemma distance_interpolated_left:
  assumes "0 < distance a b" "0 \<le> I - d"
  shows "distance a (interpolated I d a b) = I - d"
proof -
  let ?d1 = "distance a b"
  let ?t = "(I - d) / ?d1"
  have t: "0 \<le> ?t" using assms by simp
  have "(px a - px (interpolated I d a b))\<^sup>2 + (py a - py (interpolated I d a b))\<^sup>2
        = ?t\<^sup>2 * ((px a - px b)\<^sup>2 + (py a - py b)\<^sup>2)"
    unfolding interpolated_def by (simp only: Point.simps lerp_left_sq)
  then have "distance a (interpolated I d a b) = sqrt (?t\<^sup>2 * ((px a - px b)\<^sup>2 + (py a - py b)\<^sup>2))"
    by (simp only: distance_def)
  also have "\<dots> = \<bar>?t\<bar> * ?d1"
    by (simp only: real_sqrt_mult real_sqrt_abs distance_def)
  also have "\<dots> = ?t * ?d1" using t by (simp only: abs_of_nonneg)
  also have "\<dots> = I - d" using assms(1) by simp
  finally show ?thesis .
qed

lemma loop_done:
  "resample_loop I (pre @ [prev]) (Suc (length pre)) d new = Some (Inr (new, pre @ [prev]))"
  by (subst resample_loop.simps) simp

lemma loop_insert:
  assumes "I \<le> d + distance prev p" "distance prev p \<noteq> 0"
  shows "resample_loop I (pre @ prev # p # rest) (Suc (length pre)) d new =
         resample_loop I ((pre @ [prev]) @ interpolated I d prev p # p # rest)
           (Suc (length (pre @ [prev]))) 0 (new @ [interpolated I d prev p])"
  using assms
  by (subst resample_loop.simps)
     (simp add: nth_append Let_def list_insert_def interpolated_def)

lemma loop_skip:
  assumes "\<not> I \<le> d + distance prev p"
  shows "resample_loop I (pre @ prev # p # rest) (Suc (length pre)) d new =
         resample_loop I ((pre @ [prev]) @ p # rest)
           (Suc (length (pre @ [prev]))) (d + distance prev p) new"
  using assms
  by (subst resample_loop.simps) (simp add: nth_append Let_def)

lemma loop_raise:
  assumes "I \<le> d + distance prev p" "distance prev p = 0"
  shows "resample_loop I (pre @ prev # p # rest) (Suc (length pre)) d new =
           Some (Inl ZeroDivisionError)"
  using assms
  by (subst resample_loop.simps) (simp add: nth_append Let_def)

lemma path_length_zero_last: "path_length (a # ps) = 0 \<Longrightarrow> last (a # ps) = a"
proof (induction ps arbitrary: a)
  case Nil
  then show ?case by simp
next
  case (Cons b ps)
  have "0 \<le> distance a b" "0 \<le> path_length (b # ps)"
    by (simp_all add: distance_nonneg path_length_nonneg)
  with Cons.prems have z: "distance a b = 0" "path_length (b # ps) = 0" by simp_all
  then have "a = b" by (simp add: distance_eq_0)
  with Cons.IH [OF z(2)] show ?case by simp
qed

lemma resample_loop_correct:
  assumes "0 < I" "0 \<le> d" "d < I" "d + path_length (prev # rest) = real r * I"
  shows "\<exists>qs rest'.
           resample_loop I (pre @ prev # rest) (Suc (length pre)) d new =
             Some (Inr (new @ qs, pre @ prev # rest')) \<and>
           loop_post I d prev rest r qs rest'"
  using assms
proof (induction "r + length rest" arbitrary: r rest pre prev d new rule: less_induct)
  case less
  note I = \<open>0 < I\<close> and d0 = \<open>0 \<le> d\<close> and dI = \<open>d < I\<close>
    and tot = \<open>d + path_length (prev # rest) = real r * I\<close>
  show ?case
  proof (cases rest)
    case Nil
    with tot dI have "real r * I < 1 * I" by simp
    with I have "real r < 1" by (simp only: mult_less_cancel_right_pos)
    then have r: "r = 0" by simp
    have "resample_loop I (pre @ prev # rest) (Suc (length pre)) d new =
            Some (Inr (new @ [], pre @ prev # []))"
      using Nil by (simp add: loop_done)
    moreover have "loop_post I d prev rest r [] []"
      using Nil r by (simp add: loop_post_def)
    ultimately show ?thesis by blast
  next
    case (Cons p rest2)
    let ?d1 = "distance prev p"
    have pl: "path_length (prev # rest) = ?d1 + path_length (p # rest2)"
      using Cons by simp
    show ?thesis
    proof (cases "I \<le> d + ?d1")
      case True
      let ?q = "interpolated I d prev p"
      have d1pos: "0 < ?d1" using True dI by linarith
      have dq: "distance ?q p = ?d1 - (I - d)"
        using d1pos True by (intro distance_interpolated_right) linarith+
      have dl: "distance prev ?q = I - d"
        using d1pos dI by (intro distance_interpolated_left) linarith+
      have "1 * I \<le> real r * I"
        using tot pl True path_length_nonneg [of "p # rest2"] by linarith
      with I have "1 \<le> real r" by (simp only: mult_le_cancel_right_pos)
      then obtain r' where r: "r = Suc r'" by (cases r) simp_all
      have tot': "0 + path_length (?q # p # rest2) = real r' * I"
        using tot pl dq r by (simp add: algebra_simps)
      have "r' + length (p # rest2) < r + length rest" using r Cons by simp
      from less.hyps [OF this I _ I tot', of "pre @ [prev]" "new @ [?q]"]
      obtain qs' rest'' where
        run: "resample_loop I ((pre @ [prev]) @ ?q # p # rest2) (Suc (length (pre @ [prev]))) 0
                (new @ [?q]) = Some (Inr ((new @ [?q]) @ qs', (pre @ [prev]) @ ?q # rest''))"
        and post: "loop_post I 0 ?q (p # rest2) r' qs' rest''"
        by auto
      have res: "resample_loop I (pre @ prev # rest) (Suc (length pre)) d new =
            Some (Inr (new @ (?q # qs'), pre @ prev # (?q # rest'')))"
        using Cons True d1pos run by (simp add: loop_insert)
      from post have p1: "length qs' = r'" and p2: "length rest'' = length (p # rest2) + r'"
        and p3: "subseq (p # rest2) rest''"
        and p4: "path_length (?q # rest'') = path_length (?q # p # rest2)"
        and p5: "last (?q # rest'') = last (?q # p # rest2)"
        and p6: "0 < r' \<longrightarrow> last qs' = last (?q # p # rest2)"
        and p7: "\<forall>k<r'. \<exists>j<length rest''. rest'' ! j = qs' ! k \<and>
                   path_length (?q # take (Suc j) rest'') = real (Suc k) * I - 0"
        unfolding loop_post_def by blast+
      have q1: "length (?q # qs') = r" using p1 r by simp
      have q2: "length (?q # rest'') = length rest + r" using p2 r Cons by simp
      have q3: "subseq rest (?q # rest'')" unfolding Cons using p3 by (rule list_emb_Cons)
      have q4: "path_length (prev # ?q # rest'') = path_length (prev # rest)"
        using p4 dl dq pl by simp
      have q5: "last (prev # ?q # rest'') = last (prev # rest)"
        using p5 Cons by simp
      have q6: "last (?q # qs') = last (prev # rest)"
      proof (cases "0 < r'")
        case True
        with p6 have "last qs' = last (?q # p # rest2)" by blast
        moreover from True p1 have "qs' \<noteq> []" by auto
        ultimately show ?thesis using Cons by simp
      next
        case False
        with p1 have e: "qs' = []" by simp
        from False tot' have "path_length (?q # p # rest2) = 0" by simp
        then have "last (?q # p # rest2) = ?q" by (rule path_length_zero_last)
        with e Cons show ?thesis by simp
      qed
      have q7: "\<forall>k<r. \<exists>j<length (?q # rest''). (?q # rest'') ! j = (?q # qs') ! k \<and>
                   path_length (prev # take (Suc j) (?q # rest'')) = real (Suc k) * I - d"
      proof (intro allI impI)
        fix k assume k: "k < r"
        show "\<exists>j<length (?q # rest''). (?q # rest'') ! j = (?q # qs') ! k \<and>
                   path_length (prev # take (Suc j) (?q # rest'')) = real (Suc k) * I - d"
        proof (cases k)
          case 0
          have "(?q # rest'') ! 0 = (?q # qs') ! k \<and>
                path_length (prev # take (Suc 0) (?q # rest'')) = real (Suc k) * I - d"
            using 0 dl by simp
          then show ?thesis by (intro exI [of _ 0]) simp
        next
          case (Suc k')
          with k r have "k' < r'" by simp
          with p7 obtain j where j: "j < length rest''" "rest'' ! j = qs' ! k'"
            "path_length (?q # take (Suc j) rest'') = real (Suc k') * I - 0" by blast
          have "(?q # rest'') ! Suc j = (?q # qs') ! k \<and>
                path_length (prev # take (Suc (Suc j)) (?q # rest'')) = real (Suc k) * I - d"
            using j Suc dl by (simp add: algebra_simps)
          moreover have "Suc j < length (?q # rest'')" using j(1) by simp
          ultimately show ?thesis by blast
        qed
      qed
      have "loop_post I d prev rest r (?q # qs') (?q # rest'')"
        unfolding loop_post_def using q1 q2 q3 q4 q5 q6 q7 by blast
      with res show ?thesis by blast
    next
      case False
      have d': "0 \<le> d + ?d1" "d + ?d1 < I"
        using False d0 distance_nonneg [of prev p] by linarith+
      have tot': "(d + ?d1) + path_length (p # rest2) = real r * I"
        using tot pl by simp
      have "r + length rest2 < r + length rest" using Cons by simp
      from less.hyps [OF this I d' tot', of "pre @ [prev]" new]
      obtain qs rest'' where
        run: "resample_loop I ((pre @ [prev]) @ p # rest2) (Suc (length (pre @ [prev])))
                (d + ?d1) new = Some (Inr (new @ qs, (pre @ [prev]) @ p # rest''))"
        and post: "loop_post I (d + ?d1) p rest2 r qs rest''"
        by auto
      have res: "resample_loop I (pre @ prev # rest) (Suc (length pre)) d new =
            Some (Inr (new @ qs, pre @ prev # (p # rest'')))"
        using Cons False run by (simp add: loop_skip)
      from post have p1: "length qs = r" and p2: "length rest'' = length rest2 + r"
        and p3: "subseq rest2 rest''"
        and p4: "path_length (p # rest'') = path_length (p # rest2)"
        and p5: "last (p # rest'') = last (p # rest2)"
        and p6: "0 < r \<longrightarrow> last qs = last (p # rest2)"
        and p7: "\<forall>k<r. \<exists>j<length rest''. rest'' ! j = qs ! k \<and>
                   path_length (p # take (Suc j) rest'') = real (Suc k) * I - (d + ?d1)"
        unfolding loop_post_def by blast+
      have q2: "length (p # rest'') = length rest + r" using p2 Cons by simp
      have q3: "subseq rest (p # rest'')" using p3 Cons by simp
      have q4: "path_length (prev # p # rest'') = path_length (prev # rest)"
        using p4 pl by simp
      have q5: "last (prev # p # rest'') = last (prev # rest)"
        using p5 Cons by simp
      have q6: "0 < r \<longrightarrow> last qs = last (prev # rest)"
        using p6 Cons by simp
      have q7: "\<forall>k<r. \<exists>j<length (p # rest''). (p # rest'') ! j = qs ! k \<and>
                   path_length (prev # take (Suc j) (p # rest'')) = real (Suc k) * I - d"
      proof (intro allI impI)
        fix k assume "k < r"
        with p7 obtain j where j: "j < length rest''" "rest'' ! j = qs ! k"
            "path_length (p # take (Suc j) rest'') = real (Suc k) * I - (d + ?d1)" by blast
        have "(p # rest'') ! Suc j = qs ! k \<and>
              path_length (prev # take (Suc (Suc j)) (p # rest'')) = real (Suc k) * I - d"
          using j by (simp add: algebra_simps)
        moreover have "Suc j < length (p # rest'')" using j(1) by simp
        ultimately show "\<exists>j<length (p # rest''). (p # rest'') ! j = qs ! k \<and>
                   path_length (prev # take (Suc j) (p # rest'')) = real (Suc k) * I - d"
          by blast
      qed
      have "loop_post I d prev rest r qs (p # rest'')"
        unfolding loop_post_def using p1 q2 q3 q4 q5 q6 q7 by blast
      with res show ?thesis by blast
    qed
  qed
qed

lemma resample_correct:
  assumes "2 \<le> length stroke" "0 < path_length stroke" "2 \<le> n"
  shows "\<exists>qs rest'.
           resample stroke n = Some (Inr (hd stroke # qs, hd stroke # rest')) \<and>
           loop_post (path_length stroke / of_int (n - 1)) 0 (hd stroke) (tl stroke)
             (nat (n - 1)) qs rest'"
proof -
  from assms(1) obtain p0 rest where eq: "stroke = p0 # rest"
    by (cases stroke) simp_all
  let ?I = "path_length stroke / of_int (n - 1)"
  let ?r = "nat (n - 1)"
  have n1: "0 < real_of_int (n - 1)" using assms(3) by simp
  then have I: "0 < ?I" using assms(2) by simp
  have "real ?r * ?I = path_length stroke" using n1 assms(3) by simp
  then have tot: "0 + path_length (p0 # rest) = real ?r * ?I" using eq by simp
  from resample_loop_correct [OF I _ I tot, of "[]" "[p0]"]
  obtain qs rest' where
    run: "resample_loop ?I ([] @ p0 # rest) (Suc (length ([]::Point list))) 0 [p0] =
            Some (Inr ([p0] @ qs, [] @ p0 # rest'))"
    and post: "loop_post ?I 0 p0 rest ?r qs rest'"
    by auto
  from post have len: "length qs = ?r" by (simp add: loop_post_def)
  have "int (length ([p0] @ qs)) \<noteq> n - 1" using len assms(3) by simp
  moreover have "\<not> length stroke < 2" "n - 1 \<noteq> 0" "stroke ! 0 = p0"
    using assms(1,3) eq by auto
  ultimately have "resample stroke n = Some (Inr (p0 # qs, p0 # rest'))"
    using run unfolding resample_def Let_def eq [symmetric] by (simp add: eq)
  with post eq show ?thesis by auto
qed

lemma path_length_pos: "a \<noteq> b \<Longrightarrow> 0 < path_length (a # b # ps)" for a b :: Point
proof -
  assume "a \<noteq> b"
  then have "distance a b \<noteq> 0" by (simp add: distance_eq_0)
  with distance_nonneg [of a b] have "0 < distance a b" by simp
  with path_length_nonneg [of "b # ps"] show ?thesis by simp
qed

lemma resample_loop_py_aux:
  assumes "resample_loop I pts i d new = Some y"
  shows "\<forall>np pts'. Inr (np, pts') = y \<longrightarrow> (\<forall>p \<in> set pts. py p = c) \<longrightarrow>
          (\<forall>p \<in> set new. py p = c) \<longrightarrow> pts \<noteq> [] \<longrightarrow>
          (\<forall>p \<in> set np. py p = c) \<and> (\<forall>p \<in> set pts'. py p = c) \<and> pts' \<noteq> []"
proof (rule resample_loop.raw_induct
    [where P = "\<lambda>I pts i d new y. \<forall>np pts'. Inr (np, pts') = y \<longrightarrow>
       (\<forall>p \<in> set pts. py p = c) \<longrightarrow> (\<forall>p \<in> set new. py p = c) \<longrightarrow> pts \<noteq> [] \<longrightarrow>
       (\<forall>p \<in> set np. py p = c) \<and> (\<forall>p \<in> set pts'. py p = c) \<and> pts' \<noteq> []", OF _ assms], goal_cases)
  case (1 loop I pts i d new y)
  show ?case
  proof (intro allI impI)
    fix np pts'
    assume y: "Inr (np, pts') = y" and a: "\<forall>p \<in> set pts. py p = c"
      and b: "\<forall>p \<in> set new. py p = c" and ne: "pts \<noteq> []"
    show "(\<forall>p \<in> set np. py p = c) \<and> (\<forall>p \<in> set pts'. py p = c) \<and> pts' \<noteq> []"
    proof (cases "i < length pts")
      case False
      with 1(2) y a b ne show ?thesis by auto
    next
      case True
      then have m: "pts ! i \<in> set pts" "pts ! (i - 1) \<in> set pts" by simp_all
      with a have e: "py (pts ! i) = c" "py (pts ! (i - 1)) = c" by blast+
      let ?d1 = "distance (pts ! (i - 1)) (pts ! i)"
      show ?thesis
      proof (cases "I \<le> d + ?d1")
        case False
        with True 1(2) have "loop I pts (i + 1) (d + ?d1) new = Some y"
          by (simp add: Let_def)
        from 1(1) [OF this] y a b ne show ?thesis by blast
      next
        case ge: True
        show ?thesis
        proof (cases "?d1 = 0")
          case True
          with ge \<open>i < length pts\<close> 1(2) y show ?thesis by (auto simp add: Let_def)
        next
          case False
          let ?q = "\<lparr>px = px (pts ! (i - 1)) + ((I - d) / ?d1) * (px (pts ! i) - px (pts ! (i - 1))),
                     py = py (pts ! (i - 1)) + ((I - d) / ?d1) * (py (pts ! i) - py (pts ! (i - 1)))\<rparr>"
          from False ge True 1(2)
          have r: "loop I (list_insert i ?q pts) (i + 1) 0 (new @ [?q]) = Some y"
            by (simp add: Let_def)
          have q: "py ?q = c" using e by simp
          have "set (list_insert i ?q pts) \<subseteq> insert ?q (set pts)"
            unfolding list_insert_def using set_take_subset [of i pts] set_drop_subset [of i pts]
            by auto
          with a q have a': "\<forall>p \<in> set (list_insert i ?q pts). py p = c" by blast
          from b q have b': "\<forall>p \<in> set (new @ [?q]). py p = c" by simp
          have "list_insert i ?q pts \<noteq> []" by (simp add: list_insert_def)
          with 1(1) [OF r] y a' b' show ?thesis by blast
        qed
      qed
    qed
  qed
qed

lemma resample_py:
  assumes "resample stroke n = Some (Inr (np, stroke'))" "\<forall>p \<in> set stroke. py p = c"
  shows "\<forall>p \<in> set np. py p = c"
proof (cases "length stroke < 2")
  case True
  with assms show ?thesis by (simp add: resample_def)
next
  case False
  then have l0: "0 < length stroke" by linarith
  then have s0: "stroke ! 0 \<in> set stroke" by (rule nth_mem)
  with assms(2) have b: "\<forall>p \<in> set [stroke ! 0]. py p = c" by simp
  from l0 have ne: "stroke \<noteq> []" by simp
  from assms(1) False ne obtain new st where
    run: "resample_loop (path_length stroke / of_int (n - 1)) stroke 1 0 [stroke ! 0] =
            Some (Inr (new, st))"
    and np: "np = (if int (length new) = n - 1 then new @ [last st] else new)"
    and st: "st = stroke'"
    by (auto simp add: resample_def Let_def split: if_splits option.splits sum.splits)
  from resample_loop_py_aux [OF run, of c] assms(2) b ne
  have n: "\<forall>p \<in> set new. py p = c" and m: "\<forall>p \<in> set st. py p = c"
    and "st \<noteq> []" by blast+
  show ?thesis
  proof (cases "int (length new) = n - 1")
    case False
    with np n show ?thesis by simp
  next
    case True
    with \<open>st \<noteq> []\<close> show ?thesis using np n m by simp
  qed
qed

section \<open>Lemmas about the recognizer\<close>

lemma left_points_Cons:
  "\<exists>ps. left_points = \<lparr>px = 1, py = 0.5\<rparr> # \<lparr>px = 0.9, py = 0.5\<rparr> # ps"
  by (simp add: left_points_def upt_rec)

lemma right_points_Cons:
  "\<exists>ps. right_points = \<lparr>px = 0, py = 0.5\<rparr> # \<lparr>px = 0.1, py = 0.5\<rparr> # ps"
  by (simp add: right_points_def upt_rec)

lemma resample_template:
  assumes "stroke = a # b # ps" "a \<noteq> b"
  shows "\<exists>new_points stroke'. resample stroke 64 = Some (Inr (new_points, stroke')) \<and>
           length new_points = 64 \<and> new_points ! 0 = a"
proof -
  have "2 \<le> length stroke" "0 < path_length stroke"
    using assms by (simp_all add: path_length_pos del: path_length.simps)
  from resample_correct [OF this, of 64]
  obtain qs rest' where "resample stroke 64 = Some (Inr (hd stroke # qs, hd stroke # rest'))"
    "loop_post (path_length stroke / of_int (64 - 1)) 0 (hd stroke) (tl stroke) (nat (64 - 1)) qs rest'"
    by auto
  then show ?thesis using assms(1) by (simp add: loop_post_def)
qed

lemma create_templates_64:
  "\<exists>L R. create_templates 64 = Some (Inr [(''left'', L), (''right'', R)]) \<and>
          length L = 64 \<and> length R = 64 \<and>
          L ! 0 = \<lparr>px = 1, py = 0.5\<rparr> \<and> R ! 0 = \<lparr>px = 0, py = 0.5\<rparr>"
proof -
  from left_points_Cons obtain ps where "left_points = \<lparr>px = 1, py = 0.5\<rparr> # \<lparr>px = 0.9, py = 0.5\<rparr> # ps"
    by blast
  from resample_template [OF this]
  obtain L lp where L: "resample left_points 64 = Some (Inr (L, lp))" "length L = 64"
    "L ! 0 = \<lparr>px = 1, py = 0.5\<rparr>" by auto
  from right_points_Cons obtain qs where "right_points = \<lparr>px = 0, py = 0.5\<rparr> # \<lparr>px = 0.1, py = 0.5\<rparr> # qs"
    by blast
  from resample_template [OF this]
  obtain R rp where R: "resample right_points 64 = Some (Inr (R, rp))" "length R = 64"
    "R ! 0 = \<lparr>px = 0, py = 0.5\<rparr>" by auto
  from L R show ?thesis by (simp add: create_templates_def)
qed

lemma path_distance_eq_length:
  "length pts1 = length pts2 \<Longrightarrow> pts1 \<noteq> [] \<Longrightarrow>
   path_distance pts1 pts2 = Inr (Finite (mean_distance pts1 pts2))"
  by (auto simp add: path_distance_def mean_distance_def)

lemma best_match_two:
  assumes "length pts = length L" "length pts = length R" "pts \<noteq> []"
  shows "best_match pts [(l, L), (r, R)] Infinity None =
           Inr (if mean_distance pts R < mean_distance pts L
                then (Finite (mean_distance pts R), Some r)
                else (Finite (mean_distance pts L), Some l))"
  using assms by (simp add: path_distance_eq_length)

lemma DollarRecognizer_64:
  "\<exists>L R. DollarRecognizer 64 =
            Some (Inr \<lparr>num_points = 64, last_gesture_time = 0, points = [],
                       templates = [(''left'', L), (''right'', R)]\<rparr>) \<and>
          length L = 64 \<and> length R = 64 \<and>
          L ! 0 = \<lparr>px = 1, py = 0.5\<rparr> \<and> R ! 0 = \<lparr>px = 0, py = 0.5\<rparr>"
  using create_templates_64 by (auto simp add: DollarRecognizer_def)

lemma resample_stroke:
  assumes "2 \<le> length stroke" "0 < path_length stroke"
  shows "\<exists>pts stroke'. resample stroke 64 = Some (Inr (pts, stroke')) \<and>
           length pts = 64 \<and> pts ! 0 = stroke ! 0 \<and>
           subseq stroke stroke' \<and> length stroke' = length stroke + 63"
proof -
  from assms(1) obtain p0 rest where eq: "stroke = p0 # rest"
    by (cases stroke) simp_all
  from resample_correct [OF assms, of 64]
  obtain qs rest' where "resample stroke 64 = Some (Inr (p0 # qs, p0 # rest'))"
    "loop_post (path_length stroke / of_int (64 - 1)) 0 p0 rest (nat (64 - 1)) qs rest'"
    using eq by auto
  then show ?thesis using eq by (simp add: loop_post_def)
qed

lemma recognize_spec:
  assumes "DollarRecognizer 64 = Some (Inr r0)" "5 \<le> length stroke" "0 < path_length stroke"
  shows "\<exists>L R pts stroke'.
     templates r0 = [(''left'', L), (''right'', R)] \<and>
     L ! 0 = \<lparr>px = 1, py = 0.5\<rparr> \<and> R ! 0 = \<lparr>px = 0, py = 0.5\<rparr> \<and>
     resample stroke 64 = Some (Inr (pts, stroke')) \<and>
     length pts = 64 \<and> length L = 64 \<and> length R = 64 \<and> pts ! 0 = stroke ! 0 \<and>
     subseq stroke stroke' \<and> length stroke' = length stroke + 63 \<and>
     recognize t (r0\<lparr>points := stroke, last_gesture_time := lt\<rparr>) =
       Some (Inr (if min (mean_distance pts L) (mean_distance pts R) < 0.5
                  then (Some (if mean_distance pts R < mean_distance pts L
                              then ''right'' else ''left''),
                        r0\<lparr>points := [], last_gesture_time := t\<rparr>)
                  else (None, r0\<lparr>points := stroke', last_gesture_time := lt\<rparr>)))"
proof -
  from DollarRecognizer_64 assms(1) obtain L R where
    r0: "r0 = \<lparr>num_points = 64, last_gesture_time = 0, points = [],
                templates = [(''left'', L), (''right'', R)]\<rparr>"
    and L: "length L = 64" "L ! 0 = \<lparr>px = 1, py = 0.5\<rparr>"
    and R: "length R = 64" "R ! 0 = \<lparr>px = 0, py = 0.5\<rparr>"
    by auto
  have "2 \<le> length stroke" using assms(2) by simp
  from resample_stroke [OF this assms(3)]
  obtain pts stroke' where rs: "resample stroke 64 = Some (Inr (pts, stroke'))"
    and pts: "length pts = 64" "pts ! 0 = stroke ! 0"
    and st: "subseq stroke stroke'" "length stroke' = length stroke + 63"
    by blast
  have ne: "pts \<noteq> []" using pts(1) by auto
  have bm: "best_match pts [(''left'', L), (''right'', R)] Infinity None =
           Inr (if mean_distance pts R < mean_distance pts L
                then (Finite (mean_distance pts R), Some ''right'')
                else (Finite (mean_distance pts L), Some ''left''))"
    using pts(1) L(1) R(1) ne by (intro best_match_two) simp_all
  have "recognize t (r0\<lparr>points := stroke, last_gesture_time := lt\<rparr>) =
       Some (Inr (if min (mean_distance pts L) (mean_distance pts R) < 0.5
                  then (Some (if mean_distance pts R < mean_distance pts L
                              then ''right'' else ''left''),
                        r0\<lparr>points := [], last_gesture_time := t\<rparr>)
                  else (None, r0\<lparr>points := stroke', last_gesture_time := lt\<rparr>)))"
    using assms(2) rs bm unfolding recognize_def r0
    by (simp add: min_def)
  with r0 L R rs pts st show ?thesis by simp
qed

lemma recognize_degenerate:
  assumes "DollarRecognizer 64 = Some (Inr r0)" "5 \<le> length stroke" "path_length stroke = 0"
  shows "recognize t (r0\<lparr>points := stroke, last_gesture_time := lt\<rparr>) =
           Some (Inl ZeroDivisionError)"
proof -
  from DollarRecognizer_64 assms(1) obtain L R where
    r0: "r0 = \<lparr>num_points = 64, last_gesture_time = 0, points = [],
                templates = [(''left'', L), (''right'', R)]\<rparr>"
    by auto
  from assms(2) obtain a b ps where eq: "stroke = a # b # ps"
    by (cases stroke; cases "tl stroke") auto
  have "0 \<le> distance a b" "0 \<le> path_length (b # ps)"
    by (simp_all add: distance_nonneg path_length_nonneg)
  with assms(3) eq have z: "distance a b = 0" by simp
  have "resample_loop 0 ([] @ a # b # ps) (Suc (length ([]::Point list))) 0 [a] =
          Some (Inl ZeroDivisionError)"
    by (rule loop_raise) (simp_all add: z)
  then have "resample stroke 64 = Some (Inl ZeroDivisionError)"
    using assms(3) eq by (simp add: resample_def del: path_length.simps)
  then show ?thesis using assms(2) by (simp add: recognize_def r0)
qed

lemma distance_ge_dy: "\<bar>py a - py b\<bar> \<le> distance a b"
proof -
  have "sqrt ((py a - py b)\<^sup>2) \<le> sqrt ((px a - px b)\<^sup>2 + (py a - py b)\<^sup>2)"
    by (rule real_sqrt_le_mono) simp
  then show ?thesis by (simp add: distance_def)
qed

lemma mean_distance_ge:
  assumes "pts1 \<noteq> []" "\<And>i. i < length pts1 \<Longrightarrow> m \<le> distance (pts1 ! i) (pts2 ! i)"
  shows "m \<le> mean_distance pts1 pts2"
proof -
  let ?n = "length pts1"
  have "(\<Sum>i \<leftarrow> [0..<?n]. m) \<le> (\<Sum>i \<leftarrow> [0..<?n]. distance (pts1 ! i) (pts2 ! i))"
    by (rule sum_list_mono) (simp add: assms(2))
  moreover have "(\<Sum>i \<leftarrow> [0..<?n]. m) = real ?n * m"
    by (simp add: sum_list_triv)
  ultimately have "real ?n * m \<le> (\<Sum>i \<leftarrow> [0..<?n]. distance (pts1 ! i) (pts2 ! i))"
    by simp
  moreover have "0 < real ?n" using assms(1) by simp
  ultimately show ?thesis
    unfolding mean_distance_def by (simp add: pos_le_divide_eq mult.commute)
qed

lemma templates_py:
  assumes "DollarRecognizer 64 = Some (Inr r0)"
  shows "\<forall>t \<in> set (templates r0). \<forall>p \<in> set (snd t). py p = 0.5"
proof -
  have l: "\<forall>p \<in> set left_points. py p = 0.5" by (simp add: left_points_def)
  have r: "\<forall>p \<in> set right_points. py p = 0.5" by (simp add: right_points_def)
  from assms obtain L lp R rp where
    L: "resample left_points 64 = Some (Inr (L, lp))"
    and R: "resample right_points 64 = Some (Inr (R, rp))"
    and t: "templates r0 = [(''left'', L), (''right'', R)]"
    by (auto simp add: DollarRecognizer_def create_templates_def
        split: option.splits sum.splits)
  from resample_py [OF L l] resample_py [OF R r] t show ?thesis by simp
qed

section \<open>The claims\<close>

text \<open>
  Claim C1.  There are six sectors.  For every angle, negative ones included, the sector
  that both wheels compute is \<open>floor(((\<theta> mod 2\<pi>) / 2\<pi>) * 6) mod 6\<close>; it lies in
  \<open>[0, 6)\<close>; the sector of angle 0 is 0; within one revolution \<open>[0, 2\<pi>)\<close> the sector does
  not decrease as the angle grows, it is 5 on the last sixth of the revolution and is 0
  again at \<open>2\<pi>\<close>.  The \<open>wheel_hover\<close> message of a rotate-wheel add or update, and the
  \<open>nurse_wheel_hover\<close> message of a nurse-mode add or update, carry this sector.
\<close>

theorem C1_wheel_sector:
  "NUM_WHEEL_SECTORS = 6 \<and>
   wheel_sector \<theta> = \<lfloor>py_fmod \<theta> (2 * pi) / (2 * pi) * 6\<rfloor> mod 6 \<and>
   0 \<le> wheel_sector \<theta> \<and> wheel_sector \<theta> < 6 \<and>
   wheel_sector 0 = 0 \<and>
   (0 \<le> a \<and> a \<le> b \<and> b < 2 * pi \<longrightarrow> wheel_sector a \<le> wheel_sector b) \<and>
   (2 * pi * 5 / 6 \<le> c \<and> c < 2 * pi \<longrightarrow> wheel_sector c = 5) \<and>
   wheel_sector (2 * pi) = 0 \<and>
   (r_symbol_id record = ROTATE_SYMBOL \<and> r_event record \<noteq> Remove \<longrightarrow>
      Wheel_hover (wheel_sector (r_angle record)) (py_fmod (r_angle record) (2 * pi))
        (r_x record) (r_y record) (medication_at (wheel_sector (r_angle record))) ''patient''
      \<in> set (broadcasts (fst (process_logic_and_broadcast objs enabled record)))) \<and>
   (r_symbol_id nrecord = NURSE_MODE_SYMBOL \<and> r_event nrecord \<noteq> Remove \<longrightarrow>
      Nurse_wheel_hover (wheel_sector (r_angle nrecord)) (py_fmod (r_angle nrecord) (2 * pi))
        (r_x nrecord) (r_y nrecord) (medication_at (wheel_sector (r_angle nrecord)))
      \<in> set (broadcasts (fst (process_logic_and_broadcast objs enabled nrecord))))"
proof -
  have r: "0 \<le> wheel_sector \<theta>" "wheel_sector \<theta> < 6"
    using wheel_sector_range [of \<theta>] by simp_all
  then have "wheel_sector \<theta> mod 6 = wheel_sector \<theta>" by simp
  then have f: "wheel_sector \<theta> = \<lfloor>py_fmod \<theta> (2 * pi) / (2 * pi) * 6\<rfloor> mod 6"
    by (simp add: wheel_sector_floor wheel_theta_def)
  have z: "wheel_sector 0 = 0"
    by (simp add: wheel_sector_floor wheel_theta_def py_fmod_def)
  have p: "r_symbol_id record = ROTATE_SYMBOL \<and> r_event record \<noteq> Remove \<longrightarrow>
      Wheel_hover (wheel_sector (r_angle record)) (py_fmod (r_angle record) (2 * pi))
        (r_x record) (r_y record) (medication_at (wheel_sector (r_angle record))) ''patient''
      \<in> set (broadcasts (fst (process_logic_and_broadcast objs enabled record)))"
    by (simp add: broadcasts_process_rotate broadcasts_patient_wheel wheel_theta_def)
  have n: "r_symbol_id nrecord = NURSE_MODE_SYMBOL \<and> r_event nrecord \<noteq> Remove \<longrightarrow>
      Nurse_wheel_hover (wheel_sector (r_angle nrecord)) (py_fmod (r_angle nrecord) (2 * pi))
        (r_x nrecord) (r_y nrecord) (medication_at (wheel_sector (r_angle nrecord)))
      \<in> set (broadcasts (fst (process_logic_and_broadcast objs enabled nrecord)))"
    by (simp add: broadcasts_process_nurse broadcasts_nurse_wheel wheel_theta_def)
  show ?thesis
    using num_wheel_sectors f r z wheel_sector_mono [of a b] wheel_sector_last [of c]
      wheel_sector_two_pi p n
    by blast
qed

theorem C1_wheel_sector_witness:
  "wheel_sector 0 \<le> wheel_sector pi \<and> wheel_sector (2 * pi * 5 / 6) = 5 \<and>
   Wheel_hover 0 0 0.5 0.5 ''Paracetamol'' ''patient''
     \<in> set (broadcasts (fst (process_logic_and_broadcast [] False
          \<lparr>r_event = Add, r_symbol_id = 0, r_session_id = Some 1,
           r_x = 0.5, r_y = 0.5, r_angle = 0\<rparr>))) \<and>
   Nurse_wheel_hover 0 0 0.5 0.5 ''Paracetamol''
     \<in> set (broadcasts (fst (process_logic_and_broadcast [] False
          \<lparr>r_event = Update, r_symbol_id = 13, r_session_id = Some 2,
           r_x = 0.5, r_y = 0.5, r_angle = 0\<rparr>)))"
  using C1_wheel_sector [of 0 0 pi "2 * pi * 5 / 6"
      "\<lparr>r_event = Add, r_symbol_id = 0, r_session_id = Some 1,
           r_x = 0.5, r_y = 0.5, r_angle = 0\<rparr>" "[]" False
      "\<lparr>r_event = Update, r_symbol_id = 13, r_session_id = Some 2,
           r_x = 0.5, r_y = 0.5, r_angle = 0\<rparr>"]
  by (auto simp add: symbol_defs py_fmod_def medication_at_def MEDICATION_SYMBOLS_def)

text \<open>
  Claim C2.  The distance of two markers is the Euclidean distance of their positions.
  For a rotate-wheel add or update and a registry entry of selector role, the loop body
  publishes one \<open>wheel_select_confirm\<close> for that pair if and only if the distance is
  strictly less than 0.08, and publishes nothing otherwise, in particular at distance
  exactly 0.08.  The same test decides \<open>nurse_wheel_select_confirm\<close> for a
  view-patient-info entry and \<open>nurse_edit_med_select\<close> for an edit-medications entry.
  The confirmations of the whole event are those of the pairs, in registry order, so a
  confirmation is published if and only if some entry of the role is that near.
\<close>

theorem C2_proximity:
  "marker_dist srec record = sqrt ((r_x srec - r_x record)\<^sup>2 + (r_y srec - r_y record)\<^sup>2) \<and>
   (r_symbol_id srec = SELECT_SYMBOL \<longrightarrow>
      (select_body record sector (sid, srec) =
         [Broadcast (Wheel_select_confirm sector (medication_at sector) ''patient'')])
        = (marker_dist srec record < 0.08) \<and>
      (select_body record sector (sid, srec) = []) = (\<not> marker_dist srec record < 0.08)) \<and>
   (r_symbol_id srec = VIEW_PATIENT_INFO_SYMBOL \<longrightarrow>
      (nurse_select_body record sector (sid, srec) =
         [Broadcast (Nurse_wheel_select_confirm sector (medication_at sector))])
        = (marker_dist srec record < 0.08) \<and>
      (nurse_select_body record sector (sid, srec) = []) = (\<not> marker_dist srec record < 0.08)) \<and>
   (r_symbol_id srec = EDIT_MEDICATIONS_SYMBOL \<longrightarrow>
      (nurse_select_body record sector (sid, srec) =
         [Broadcast (Nurse_edit_med_select sector (medication_at sector))])
        = (marker_dist srec record < 0.08) \<and>
      (nurse_select_body record sector (sid, srec) = []) = (\<not> marker_dist srec record < 0.08)) \<and>
   (r_symbol_id record = ROTATE_SYMBOL \<and> r_event record \<noteq> Remove \<longrightarrow>
      filter is_confirmation (broadcasts (fst (process_logic_and_broadcast objs enabled record))) =
        concat (map (\<lambda>item. broadcasts (select_body record (wheel_sector (r_angle record)) item))
                  objs) \<and>
      (Wheel_select_confirm (wheel_sector (r_angle record))
           (medication_at (wheel_sector (r_angle record))) ''patient''
         \<in> set (broadcasts (fst (process_logic_and_broadcast objs enabled record))))
        = (\<exists>item \<in> set objs. r_symbol_id (snd item) = SELECT_SYMBOL \<and>
                                marker_dist (snd item) record < 0.08)) \<and>
   (r_symbol_id record = NURSE_MODE_SYMBOL \<and> r_event record \<noteq> Remove \<longrightarrow>
      filter is_confirmation (broadcasts (fst (process_logic_and_broadcast objs enabled record))) =
        concat (map (\<lambda>item. broadcasts (nurse_select_body record (wheel_sector (r_angle record)) item))
                  objs) \<and>
      (Nurse_wheel_select_confirm (wheel_sector (r_angle record))
           (medication_at (wheel_sector (r_angle record)))
         \<in> set (broadcasts (fst (process_logic_and_broadcast objs enabled record))))
        = (\<exists>item \<in> set objs. r_symbol_id (snd item) = VIEW_PATIENT_INFO_SYMBOL \<and>
                                marker_dist (snd item) record < 0.08) \<and>
      (Nurse_edit_med_select (wheel_sector (r_angle record))
           (medication_at (wheel_sector (r_angle record)))
         \<in> set (broadcasts (fst (process_logic_and_broadcast objs enabled record))))
        = (\<exists>item \<in> set objs. r_symbol_id (snd item) = EDIT_MEDICATIONS_SYMBOL \<and>
                                marker_dist (snd item) record < 0.08))"
proof -
  have d: "marker_dist srec record = sqrt ((r_x srec - r_x record)\<^sup>2 + (r_y srec - r_y record)\<^sup>2)"
    by (simp add: marker_dist_def hypot_def Let_def)
  have s: "r_symbol_id srec = SELECT_SYMBOL \<longrightarrow>
      (select_body record sector (sid, srec) =
         [Broadcast (Wheel_select_confirm sector (medication_at sector) ''patient'')])
        = (marker_dist srec record < 0.08) \<and>
      (select_body record sector (sid, srec) = []) = (\<not> marker_dist srec record < 0.08)"
    by (simp add: select_body_def Let_def)
  have v: "r_symbol_id srec = VIEW_PATIENT_INFO_SYMBOL \<longrightarrow>
      (nurse_select_body record sector (sid, srec) =
         [Broadcast (Nurse_wheel_select_confirm sector (medication_at sector))])
        = (marker_dist srec record < 0.08) \<and>
      (nurse_select_body record sector (sid, srec) = []) = (\<not> marker_dist srec record < 0.08)"
    by (simp add: nurse_select_body_def Let_def)
  have e: "r_symbol_id srec = EDIT_MEDICATIONS_SYMBOL \<longrightarrow>
      (nurse_select_body record sector (sid, srec) =
         [Broadcast (Nurse_edit_med_select sector (medication_at sector))])
        = (marker_dist srec record < 0.08) \<and>
      (nurse_select_body record sector (sid, srec) = []) = (\<not> marker_dist srec record < 0.08)"
    by (simp add: nurse_select_body_def Let_def symbol_defs)
  have p: "r_symbol_id record = ROTATE_SYMBOL \<and> r_event record \<noteq> Remove \<longrightarrow>
      filter is_confirmation (broadcasts (fst (process_logic_and_broadcast objs enabled record))) =
        concat (map (\<lambda>item. broadcasts (select_body record (wheel_sector (r_angle record)) item))
                  objs) \<and>
      (Wheel_select_confirm (wheel_sector (r_angle record))
           (medication_at (wheel_sector (r_angle record))) ''patient''
         \<in> set (broadcasts (fst (process_logic_and_broadcast objs enabled record))))
        = (\<exists>item \<in> set objs. r_symbol_id (snd item) = SELECT_SYMBOL \<and>
                                marker_dist (snd item) record < 0.08)"
    by (auto simp add: broadcasts_process_rotate broadcasts_patient_wheel
        broadcasts_select_body concat_map_if filter_map comp_def)
  have n: "r_symbol_id record = NURSE_MODE_SYMBOL \<and> r_event record \<noteq> Remove \<longrightarrow>
      filter is_confirmation (broadcasts (fst (process_logic_and_broadcast objs enabled record))) =
        concat (map (\<lambda>item. broadcasts (nurse_select_body record (wheel_sector (r_angle record)) item))
                  objs) \<and>
      (Nurse_wheel_select_confirm (wheel_sector (r_angle record))
           (medication_at (wheel_sector (r_angle record)))
         \<in> set (broadcasts (fst (process_logic_and_broadcast objs enabled record))))
        = (\<exists>item \<in> set objs. r_symbol_id (snd item) = VIEW_PATIENT_INFO_SYMBOL \<and>
                                marker_dist (snd item) record < 0.08) \<and>
      (Nurse_edit_med_select (wheel_sector (r_angle record))
           (medication_at (wheel_sector (r_angle record)))
         \<in> set (broadcasts (fst (process_logic_and_broadcast objs enabled record))))
        = (\<exists>item \<in> set objs. r_symbol_id (snd item) = EDIT_MEDICATIONS_SYMBOL \<and>
                                marker_dist (snd item) record < 0.08)"
  proof (intro impI)
    assume a: "r_symbol_id record = NURSE_MODE_SYMBOL \<and> r_event record \<noteq> Remove"
    let ?s = "wheel_sector (r_angle record)"
    let ?g = "\<lambda>item. if r_symbol_id (snd item) = VIEW_PATIENT_INFO_SYMBOL
                     then Nurse_wheel_select_confirm ?s (medication_at ?s)
                     else Nurse_edit_med_select ?s (medication_at ?s)"
    let ?Q = "\<lambda>item. (r_symbol_id (snd item) = VIEW_PATIENT_INFO_SYMBOL \<or>
                      r_symbol_id (snd item) = EDIT_MEDICATIONS_SYMBOL) \<and>
                     marker_dist (snd item) record < 0.08"
    have c: "concat (map (\<lambda>item. broadcasts (nurse_select_body record ?s item)) objs)
               = map ?g (filter ?Q objs)"
      by (simp only: broadcasts_nurse_select_body concat_map_if)
    have f: "filter is_confirmation (map ?g (filter ?Q objs)) = map ?g (filter ?Q objs)"
      by (induction objs) simp_all
    have b: "broadcasts (fst (process_logic_and_broadcast objs enabled record)) =
        Tuio_obj record #
        (if r_event record = Add then [Nurse_wheel_open (r_x record) (r_y record)] else []) @
        Nurse_wheel_hover ?s (wheel_theta (r_angle record)) (r_x record) (r_y record)
          (medication_at ?s) # map ?g (filter ?Q objs)"
      using a by (simp add: broadcasts_process_nurse broadcasts_nurse_wheel)
    have m1: "(Nurse_wheel_select_confirm ?s (medication_at ?s) \<in> set (map ?g (filter ?Q objs)))
        = (\<exists>item \<in> set objs. r_symbol_id (snd item) = VIEW_PATIENT_INFO_SYMBOL \<and>
                                marker_dist (snd item) record < 0.08)"
      by (force simp add: image_iff symbol_defs)
    have m2: "(Nurse_edit_med_select ?s (medication_at ?s) \<in> set (map ?g (filter ?Q objs)))
        = (\<exists>item \<in> set objs. r_symbol_id (snd item) = EDIT_MEDICATIONS_SYMBOL \<and>
                                marker_dist (snd item) record < 0.08)"
      by (force simp add: image_iff symbol_defs)
    show "filter is_confirmation (broadcasts (fst (process_logic_and_broadcast objs enabled record))) =
        concat (map (\<lambda>item. broadcasts (nurse_select_body record ?s item)) objs) \<and>
      (Nurse_wheel_select_confirm ?s (medication_at ?s)
         \<in> set (broadcasts (fst (process_logic_and_broadcast objs enabled record))))
        = (\<exists>item \<in> set objs. r_symbol_id (snd item) = VIEW_PATIENT_INFO_SYMBOL \<and>
                                marker_dist (snd item) record < 0.08) \<and>
      (Nurse_edit_med_select ?s (medication_at ?s)
         \<in> set (broadcasts (fst (process_logic_and_broadcast objs enabled record))))
        = (\<exists>item \<in> set objs. r_symbol_id (snd item) = EDIT_MEDICATIONS_SYMBOL \<and>
                                marker_dist (snd item) record < 0.08)"
      unfolding b c using m1 m2 f by simp
  qed
  show ?thesis using d s v e p n by blast
qed

theorem C2_proximity_witness:
  "select_body
     \<lparr>r_event = Update, r_symbol_id = 0, r_session_id = Some 1, r_x = 0.5, r_y = 0.5, r_angle = 0\<rparr>
     0 (Some 2, \<lparr>r_event = Add, r_symbol_id = 1, r_session_id = Some 2, r_x = 0.5, r_y = 0.55,
                 r_angle = 0\<rparr>)
     = [Broadcast (Wheel_select_confirm 0 ''Paracetamol'' ''patient'')] \<and>
   marker_dist
     \<lparr>r_event = Add, r_symbol_id = 1, r_session_id = Some 3, r_x = 0.5, r_y = 0.58, r_angle = 0\<rparr>
     \<lparr>r_event = Update, r_symbol_id = 0, r_session_id = Some 1, r_x = 0.5, r_y = 0.5, r_angle = 0\<rparr>
     = 0.08 \<and>
   select_body
     \<lparr>r_event = Update, r_symbol_id = 0, r_session_id = Some 1, r_x = 0.5, r_y = 0.5, r_angle = 0\<rparr>
     0 (Some 3, \<lparr>r_event = Add, r_symbol_id = 1, r_session_id = Some 3, r_x = 0.5, r_y = 0.58,
                 r_angle = 0\<rparr>)
     = [] \<and>
   nurse_select_body
     \<lparr>r_event = Update, r_symbol_id = 13, r_session_id = Some 4, r_x = 0.5, r_y = 0.5, r_angle = 0\<rparr>
     0 (Some 5, \<lparr>r_event = Add, r_symbol_id = 14, r_session_id = Some 5, r_x = 0.5, r_y = 0.45,
                 r_angle = 0\<rparr>)
     = [Broadcast (Nurse_wheel_select_confirm 0 ''Paracetamol'')] \<and>
   nurse_select_body
     \<lparr>r_event = Update, r_symbol_id = 13, r_session_id = Some 4, r_x = 0.5, r_y = 0.5, r_angle = 0\<rparr>
     0 (Some 6, \<lparr>r_event = Add, r_symbol_id = 15, r_session_id = Some 6, r_x = 0.5, r_y = 0.42,
                 r_angle = 0\<rparr>)
     = [] \<and>
   filter is_confirmation (broadcasts (fst (process_logic_and_broadcast
     [(Some 1, \<lparr>r_event = Update, r_symbol_id = 0, r_session_id = Some 1, r_x = 0.5, r_y = 0.5,
                 r_angle = 0\<rparr>),
      (Some 2, \<lparr>r_event = Add, r_symbol_id = 1, r_session_id = Some 2, r_x = 0.5, r_y = 0.55,
                 r_angle = 0\<rparr>),
      (Some 3, \<lparr>r_event = Add, r_symbol_id = 1, r_session_id = Some 3, r_x = 0.5, r_y = 0.58,
                 r_angle = 0\<rparr>)]
     False
     \<lparr>r_event = Update, r_symbol_id = 0, r_session_id = Some 1, r_x = 0.5, r_y = 0.5, r_angle = 0\<rparr>)))
     = [Wheel_select_confirm 0 ''Paracetamol'' ''patient'']"
  using
    C2_proximity [of
      "\<lparr>r_event = Add, r_symbol_id = 1, r_session_id = Some 2, r_x = 0.5, r_y = 0.55, r_angle = 0\<rparr>"
      "\<lparr>r_event = Update, r_symbol_id = 0, r_session_id = Some 1, r_x = 0.5, r_y = 0.5, r_angle = 0\<rparr>"
      0 "Some 2"
      "[(Some 1, \<lparr>r_event = Update, r_symbol_id = 0, r_session_id = Some 1, r_x = 0.5, r_y = 0.5,
                 r_angle = 0\<rparr>),
      (Some 2, \<lparr>r_event = Add, r_symbol_id = 1, r_session_id = Some 2, r_x = 0.5, r_y = 0.55,
                 r_angle = 0\<rparr>),
      (Some 3, \<lparr>r_event = Add, r_symbol_id = 1, r_session_id = Some 3, r_x = 0.5, r_y = 0.58,
                 r_angle = 0\<rparr>)]" False]
    C2_proximity [of
      "\<lparr>r_event = Add, r_symbol_id = 1, r_session_id = Some 3, r_x = 0.5, r_y = 0.58, r_angle = 0\<rparr>"
      "\<lparr>r_event = Update, r_symbol_id = 0, r_session_id = Some 1, r_x = 0.5, r_y = 0.5, r_angle = 0\<rparr>"
      0 "Some 3" "[]" False]
    C2_proximity [of
      "\<lparr>r_event = Add, r_symbol_id = 14, r_session_id = Some 5, r_x = 0.5, r_y = 0.45, r_angle = 0\<rparr>"
      "\<lparr>r_event = Update, r_symbol_id = 13, r_session_id = Some 4, r_x = 0.5, r_y = 0.5, r_angle = 0\<rparr>"
      0 "Some 5" "[]" False]
    C2_proximity [of
      "\<lparr>r_event = Add, r_symbol_id = 15, r_session_id = Some 6, r_x = 0.5, r_y = 0.42, r_angle = 0\<rparr>"
      "\<lparr>r_event = Update, r_symbol_id = 13, r_session_id = Some 4, r_x = 0.5, r_y = 0.5, r_angle = 0\<rparr>"
      0 "Some 6" "[]" False]
  by (simp add: marker_dist_same_x symbol_defs wheel_sector_zero medication_at_zero
      broadcasts_select_body)

text \<open>
  Claim C3.  Tracking events are handled one after the other, starting from any
  registry with one entry for each session id.  Then the registry still has at most one
  entry for each session id.  After an add or update that carries a marker id, and as
  long as no later event names its session id, the entry of that session id is the record
  of that event.  A remove for a session id that is not in the registry leaves the
  registry as it is.  After a remove that carries a marker id, and as long as no later
  add or update names its session id, that session id is not in the registry, so no scan
  meets it.
\<close>

theorem C3_registry:
  "(distinct (map fst (latest_objects st)) \<longrightarrow>
      distinct (map fst (latest_objects (handle_all es st)))) \<and>
   (es = es1 @ (event_type, obj) # es2 \<and> event_type \<noteq> Remove \<and>
    obj_symbol_id obj = Some symbol_id \<and>
    (\<forall>e \<in> set es2. obj_session_id (snd e) \<noteq> obj_session_id obj) \<longrightarrow>
      map_of (latest_objects (handle_all es st)) (obj_session_id obj) =
        Some \<lparr>r_event = event_type, r_symbol_id = symbol_id,
              r_session_id = obj_session_id obj,
              r_x = obj_x obj, r_y = obj_y obj, r_angle = obj_angle obj\<rparr>) \<and>
   (obj_session_id robj \<notin> fst ` set (latest_objects st) \<longrightarrow>
      latest_objects (snd (handle_obj Remove robj st)) = latest_objects st) \<and>
   (es = es3 @ (Remove, robj) # es4 \<and> obj_symbol_id robj \<noteq> None \<and>
    (\<forall>e \<in> set es4. obj_session_id (snd e) = obj_session_id robj \<longrightarrow> fst e = Remove) \<longrightarrow>
      obj_session_id robj \<notin> fst ` set (latest_objects (handle_all es st)))"
proof (intro conjI impI)
  assume "distinct (map fst (latest_objects st))"
  then show "distinct (map fst (latest_objects (handle_all es st)))"
    by (rule distinct_handle_all)
next
  assume a: "es = es1 @ (event_type, obj) # es2 \<and> event_type \<noteq> Remove \<and>
    obj_symbol_id obj = Some symbol_id \<and>
    (\<forall>e \<in> set es2. obj_session_id (snd e) \<noteq> obj_session_id obj)"
  let ?st1 = "handle_all es1 st"
  have "map_of (latest_objects (snd (handle_obj event_type obj ?st1))) (obj_session_id obj) =
        Some \<lparr>r_event = event_type, r_symbol_id = symbol_id,
              r_session_id = obj_session_id obj,
              r_x = obj_x obj, r_y = obj_y obj, r_angle = obj_angle obj\<rparr>"
    using a by (simp add: latest_objects_handle_obj update_conv')
  moreover have "handle_all es st = handle_all es2 (snd (handle_obj event_type obj ?st1))"
    using a by (simp add: handle_all_append)
  ultimately show "map_of (latest_objects (handle_all es st)) (obj_session_id obj) =
        Some \<lparr>r_event = event_type, r_symbol_id = symbol_id,
              r_session_id = obj_session_id obj,
              r_x = obj_x obj, r_y = obj_y obj, r_angle = obj_angle obj\<rparr>"
    using a by (simp add: map_of_handle_all_other)
next
  assume "obj_session_id robj \<notin> fst ` set (latest_objects st)"
  then show "latest_objects (snd (handle_obj Remove robj st)) = latest_objects st"
    by (simp add: latest_objects_handle_obj split: option.split)
next
  assume a: "es = es3 @ (Remove, robj) # es4 \<and> obj_symbol_id robj \<noteq> None \<and>
    (\<forall>e \<in> set es4. obj_session_id (snd e) = obj_session_id robj \<longrightarrow> fst e = Remove)"
  let ?st1 = "handle_all es3 st"
  have "map_of (latest_objects (snd (handle_obj Remove robj ?st1))) (obj_session_id robj) = None"
    using a by (auto simp add: latest_objects_handle_obj delete_conv')
  moreover have "handle_all es st = handle_all es4 (snd (handle_obj Remove robj ?st1))"
    using a by (simp add: handle_all_append)
  ultimately have "map_of (latest_objects (handle_all es st)) (obj_session_id robj) = None"
    using a by (simp add: map_of_handle_all_absent)
  then show "obj_session_id robj \<notin> fst ` set (latest_objects (handle_all es st))"
    by (simp add: map_of_None_keys)
qed

theorem C3_registry_witness:
  "distinct (map fst (latest_objects (handle_all
      [(Add, \<lparr>obj_symbol_id = Some 0, obj_session_id = Some 1, obj_x = 0.5, obj_y = 0.5, obj_angle = 0\<rparr>),
       (Add, \<lparr>obj_symbol_id = Some 1, obj_session_id = Some 2, obj_x = 0.2, obj_y = 0.2, obj_angle = 0\<rparr>),
       (Update, \<lparr>obj_symbol_id = Some 0, obj_session_id = Some 1, obj_x = 0.6, obj_y = 0.5, obj_angle = 1\<rparr>),
       (Remove, \<lparr>obj_symbol_id = Some 1, obj_session_id = Some 2, obj_x = 0.2, obj_y = 0.2, obj_angle = 0\<rparr>),
       (Remove, \<lparr>obj_symbol_id = Some 1, obj_session_id = Some 2, obj_x = 0.2, obj_y = 0.2, obj_angle = 0\<rparr>)]
      initial_engine))) \<and>
   map_of (latest_objects (handle_all
      [(Add, \<lparr>obj_symbol_id = Some 0, obj_session_id = Some 1, obj_x = 0.5, obj_y = 0.5, obj_angle = 0\<rparr>),
       (Add, \<lparr>obj_symbol_id = Some 1, obj_session_id = Some 2, obj_x = 0.2, obj_y = 0.2, obj_angle = 0\<rparr>),
       (Update, \<lparr>obj_symbol_id = Some 0, obj_session_id = Some 1, obj_x = 0.6, obj_y = 0.5, obj_angle = 1\<rparr>),
       (Remove, \<lparr>obj_symbol_id = Some 1, obj_session_id = Some 2, obj_x = 0.2, obj_y = 0.2, obj_angle = 0\<rparr>),
       (Remove, \<lparr>obj_symbol_id = Some 1, obj_session_id = Some 2, obj_x = 0.2, obj_y = 0.2, obj_angle = 0\<rparr>)]
      initial_engine)) (Some 1) =
     Some \<lparr>r_event = Update, r_symbol_id = 0, r_session_id = Some 1, r_x = 0.6, r_y = 0.5,
           r_angle = 1\<rparr> \<and>
   latest_objects (snd (handle_obj Remove
      \<lparr>obj_symbol_id = Some 1, obj_session_id = Some 2, obj_x = 0.2, obj_y = 0.2, obj_angle = 0\<rparr>
      initial_engine)) = latest_objects initial_engine \<and>
   Some 2 \<notin> fst ` set (latest_objects (handle_all
      [(Add, \<lparr>obj_symbol_id = Some 0, obj_session_id = Some 1, obj_x = 0.5, obj_y = 0.5, obj_angle = 0\<rparr>),
       (Add, \<lparr>obj_symbol_id = Some 1, obj_session_id = Some 2, obj_x = 0.2, obj_y = 0.2, obj_angle = 0\<rparr>),
       (Update, \<lparr>obj_symbol_id = Some 0, obj_session_id = Some 1, obj_x = 0.6, obj_y = 0.5, obj_angle = 1\<rparr>),
       (Remove, \<lparr>obj_symbol_id = Some 1, obj_session_id = Some 2, obj_x = 0.2, obj_y = 0.2, obj_angle = 0\<rparr>),
       (Remove, \<lparr>obj_symbol_id = Some 1, obj_session_id = Some 2, obj_x = 0.2, obj_y = 0.2, obj_angle = 0\<rparr>)]
      initial_engine))"
  using C3_registry [of initial_engine
      "[(Add, \<lparr>obj_symbol_id = Some 0, obj_session_id = Some 1, obj_x = 0.5, obj_y = 0.5, obj_angle = 0\<rparr>),
       (Add, \<lparr>obj_symbol_id = Some 1, obj_session_id = Some 2, obj_x = 0.2, obj_y = 0.2, obj_angle = 0\<rparr>),
       (Update, \<lparr>obj_symbol_id = Some 0, obj_session_id = Some 1, obj_x = 0.6, obj_y = 0.5, obj_angle = 1\<rparr>),
       (Remove, \<lparr>obj_symbol_id = Some 1, obj_session_id = Some 2, obj_x = 0.2, obj_y = 0.2, obj_angle = 0\<rparr>),
       (Remove, \<lparr>obj_symbol_id = Some 1, obj_session_id = Some 2, obj_x = 0.2, obj_y = 0.2, obj_angle = 0\<rparr>)]"
      "[(Add, \<lparr>obj_symbol_id = Some 0, obj_session_id = Some 1, obj_x = 0.5, obj_y = 0.5, obj_angle = 0\<rparr>),
       (Add, \<lparr>obj_symbol_id = Some 1, obj_session_id = Some 2, obj_x = 0.2, obj_y = 0.2, obj_angle = 0\<rparr>)]"
      Update
      "\<lparr>obj_symbol_id = Some 0, obj_session_id = Some 1, obj_x = 0.6, obj_y = 0.5, obj_angle = 1\<rparr>"
      "[(Remove, \<lparr>obj_symbol_id = Some 1, obj_session_id = Some 2, obj_x = 0.2, obj_y = 0.2, obj_angle = 0\<rparr>),
       (Remove, \<lparr>obj_symbol_id = Some 1, obj_session_id = Some 2, obj_x = 0.2, obj_y = 0.2, obj_angle = 0\<rparr>)]"
      0
      "\<lparr>obj_symbol_id = Some 1, obj_session_id = Some 2, obj_x = 0.2, obj_y = 0.2, obj_angle = 0\<rparr>"
      "[(Add, \<lparr>obj_symbol_id = Some 0, obj_session_id = Some 1, obj_x = 0.5, obj_y = 0.5, obj_angle = 0\<rparr>),
       (Add, \<lparr>obj_symbol_id = Some 1, obj_session_id = Some 2, obj_x = 0.2, obj_y = 0.2, obj_angle = 0\<rparr>),
       (Update, \<lparr>obj_symbol_id = Some 0, obj_session_id = Some 1, obj_x = 0.6, obj_y = 0.5, obj_angle = 1\<rparr>)]"
      "[(Remove, \<lparr>obj_symbol_id = Some 1, obj_session_id = Some 2, obj_x = 0.2, obj_y = 0.2, obj_angle = 0\<rparr>)]"]
  by (simp add: initial_engine_def)

text \<open>
  Claim C4, as the code has it.  When the controller is active and the frame shows a
  closed fist, the pass clears the shared flag and, if at least one client is
  connected, publishes \<open>gesture_time_final\<close> and then \<open>gesture_mode_toggled\<close> with
  \<open>enabled = False\<close>, whatever the time of the last update; with no client connected the
  pass publishes nothing.  When the flag is cleared from outside while the controller
  is active, the next pass publishes \<open>gesture_time_final\<close>, whatever the time of the
  last update and without \<open>gesture_mode_toggled\<close>, the controller stops being active,
  and as long as the flag is not set again nothing more is published.
\<close>

theorem C4_final_time:
  "(cap_open st \<and> hands_ready st \<and> frame inp = Some (Some hand) \<and> is_fist hand \<longrightarrow>
      hand_tracking_pass inp st True =
        ((if client_count inp > 0
          then [Gesture_time_final (time_str (current_time_minutes st)) (current_time_minutes st),
                Gesture_mode_toggled False]
          else []),
         st\<lparr>frame_count := frame_count st + 1\<rparr>, False)) \<and>
   (gesture_active st \<and> (\<forall>p \<in> set ps. fst p \<noteq> Some True) \<longrightarrow>
      hand_tracking_loop ((Some False, inp) # ps) st enabled =
        ([Gesture_time_final (time_str (current_time_minutes st)) (current_time_minutes st)],
         st\<lparr>cap_open := False, gesture_active := False\<rparr>, False))"
proof (intro conjI impI)
  assume "cap_open st \<and> hands_ready st \<and> frame inp = Some (Some hand) \<and> is_fist hand"
  then show "hand_tracking_pass inp st True =
        ((if client_count inp > 0
          then [Gesture_time_final (time_str (current_time_minutes st)) (current_time_minutes st),
                Gesture_mode_toggled False]
          else []),
         st\<lparr>frame_count := frame_count st + 1\<rparr>, False)"
    by (simp add: hand_tracking_pass_def track_hand_def Let_def)
next
  assume a: "gesture_active st \<and> (\<forall>p \<in> set ps. fst p \<noteq> Some True)"
  let ?st = "st\<lparr>cap_open := False, gesture_active := False\<rparr>"
  have "hand_tracking_pass inp st False =
          ([Gesture_time_final (time_str (current_time_minutes st)) (current_time_minutes st)],
           ?st, False)"
    using a by (simp add: hand_tracking_pass_def)
  moreover have "hand_tracking_loop ps ?st False = ([], ?st, False)"
    using a by (intro hand_tracking_loop_idle) simp_all
  ultimately show "hand_tracking_loop ((Some False, inp) # ps) st enabled =
        ([Gesture_time_final (time_str (current_time_minutes st)) (current_time_minutes st)],
         ?st, False)"
    by simp
qed

theorem C4_final_time_witness:
  "hand_tracking_pass
     \<lparr>camera_opens = True,
      frame = Some (Some \<lparr>wrist = \<lparr>lm_x = 0.5, lm_y = 0.5, lm_z = 0\<rparr>,
                          thumb_tip = \<lparr>lm_x = 0.5, lm_y = 0.5, lm_z = 0\<rparr>,
                          index_tip = \<lparr>lm_x = 0.5, lm_y = 0.5, lm_z = 0\<rparr>,
                          middle_tip = \<lparr>lm_x = 0.5, lm_y = 0.5, lm_z = 0\<rparr>,
                          ring_tip = \<lparr>lm_x = 0.5, lm_y = 0.5, lm_z = 0\<rparr>,
                          pinky_tip = \<lparr>lm_x = 0.5, lm_y = 0.5, lm_z = 0\<rparr>\<rparr>),
      client_count = 1, key_q = False, now = 10\<rparr>
     \<lparr>base_time_minutes = 450, current_time_minutes = 570, last_broadcast_time = 9.9,
      cap_open = True, hands_ready = True, gesture_active = True, frame_count = 7\<rparr>
     True
   = ([Gesture_time_final ''09:30'' 570, Gesture_mode_toggled False],
      \<lparr>base_time_minutes = 450, current_time_minutes = 570, last_broadcast_time = 9.9,
       cap_open = True, hands_ready = True, gesture_active = True, frame_count = 8\<rparr>,
      False) \<and>
   hand_tracking_loop
     [(Some False,
       \<lparr>camera_opens = True, frame = None, client_count = 1, key_q = False, now = 10\<rparr>),
      (None,
       \<lparr>camera_opens = True, frame = None, client_count = 1, key_q = False, now = 10.1\<rparr>),
      (Some False,
       \<lparr>camera_opens = True, frame = None, client_count = 1, key_q = False, now = 10.2\<rparr>)]
     \<lparr>base_time_minutes = 450, current_time_minutes = 570, last_broadcast_time = 9.9,
      cap_open = True, hands_ready = True, gesture_active = True, frame_count = 7\<rparr>
     True
   = ([Gesture_time_final ''09:30'' 570],
      \<lparr>base_time_minutes = 450, current_time_minutes = 570, last_broadcast_time = 9.9,
       cap_open = False, hands_ready = True, gesture_active = False, frame_count = 7\<rparr>,
      False)"
  using
    C4_final_time [of
      "\<lparr>base_time_minutes = 450, current_time_minutes = 570, last_broadcast_time = 9.9,
      cap_open = True, hands_ready = True, gesture_active = True, frame_count = 7\<rparr>"
      "\<lparr>camera_opens = True,
      frame = Some (Some \<lparr>wrist = \<lparr>lm_x = 0.5, lm_y = 0.5, lm_z = 0\<rparr>,
                          thumb_tip = \<lparr>lm_x = 0.5, lm_y = 0.5, lm_z = 0\<rparr>,
                          index_tip = \<lparr>lm_x = 0.5, lm_y = 0.5, lm_z = 0\<rparr>,
                          middle_tip = \<lparr>lm_x = 0.5, lm_y = 0.5, lm_z = 0\<rparr>,
                          ring_tip = \<lparr>lm_x = 0.5, lm_y = 0.5, lm_z = 0\<rparr>,
                          pinky_tip = \<lparr>lm_x = 0.5, lm_y = 0.5, lm_z = 0\<rparr>\<rparr>),
      client_count = 1, key_q = False, now = 10\<rparr>"
      "\<lparr>wrist = \<lparr>lm_x = 0.5, lm_y = 0.5, lm_z = 0\<rparr>,
                          thumb_tip = \<lparr>lm_x = 0.5, lm_y = 0.5, lm_z = 0\<rparr>,
                          index_tip = \<lparr>lm_x = 0.5, lm_y = 0.5, lm_z = 0\<rparr>,
                          middle_tip = \<lparr>lm_x = 0.5, lm_y = 0.5, lm_z = 0\<rparr>,
                          ring_tip = \<lparr>lm_x = 0.5, lm_y = 0.5, lm_z = 0\<rparr>,
                          pinky_tip = \<lparr>lm_x = 0.5, lm_y = 0.5, lm_z = 0\<rparr>\<rparr>"
      "[]"]
    C4_final_time [of
      "\<lparr>base_time_minutes = 450, current_time_minutes = 570, last_broadcast_time = 9.9,
      cap_open = True, hands_ready = True, gesture_active = True, frame_count = 7\<rparr>"
      "\<lparr>camera_opens = True, frame = None, client_count = 1, key_q = False, now = 10\<rparr>"
      "\<lparr>wrist = \<lparr>lm_x = 0.5, lm_y = 0.5, lm_z = 0\<rparr>,
                          thumb_tip = \<lparr>lm_x = 0.5, lm_y = 0.5, lm_z = 0\<rparr>,
                          index_tip = \<lparr>lm_x = 0.5, lm_y = 0.5, lm_z = 0\<rparr>,
                          middle_tip = \<lparr>lm_x = 0.5, lm_y = 0.5, lm_z = 0\<rparr>,
                          ring_tip = \<lparr>lm_x = 0.5, lm_y = 0.5, lm_z = 0\<rparr>,
                          pinky_tip = \<lparr>lm_x = 0.5, lm_y = 0.5, lm_z = 0\<rparr>\<rparr>"
      "[(None,
       \<lparr>camera_opens = True, frame = None, client_count = 1, key_q = False, now = 10.1\<rparr>),
      (Some False,
       \<lparr>camera_opens = True, frame = None, client_count = 1, key_q = False, now = 10.2\<rparr>)]"
      True]
  by (simp add: is_fist_closed time_str_570)

text \<open>
  Against claim C4 as it is written.  First run: the camera opens, the first frame
  shows a fist, one client is connected; the pass after the commit finds the flag
  cleared and publishes \<open>gesture_time_final\<close> a second time.  Second run: an open hand
  at \<open>x = 0.75\<close>, then the flag is cleared from outside; \<open>gesture_time_final\<close> is
  published once and no \<open>gesture_mode_toggled\<close> follows.
\<close>

theorem C4_final_twice_counterexample:
  "fst (hand_tracking_loop
     [(None, \<lparr>camera_opens = True,
               frame = Some (Some \<lparr>wrist = \<lparr>lm_x = 0.5, lm_y = 0.5, lm_z = 0\<rparr>,
                                   thumb_tip = \<lparr>lm_x = 0.5, lm_y = 0.5, lm_z = 0\<rparr>,
                                   index_tip = \<lparr>lm_x = 0.5, lm_y = 0.5, lm_z = 0\<rparr>,
                                   middle_tip = \<lparr>lm_x = 0.5, lm_y = 0.5, lm_z = 0\<rparr>,
                                   ring_tip = \<lparr>lm_x = 0.5, lm_y = 0.5, lm_z = 0\<rparr>,
                                   pinky_tip = \<lparr>lm_x = 0.5, lm_y = 0.5, lm_z = 0\<rparr>\<rparr>),
               client_count = 1, key_q = False, now = 10\<rparr>),
      (None, \<lparr>camera_opens = True, frame = None, client_count = 1, key_q = False, now = 10.5\<rparr>),
      (None, \<lparr>camera_opens = True, frame = None, client_count = 1, key_q = False, now = 10.6\<rparr>)]
     initial_tracker True)
   = [Gesture_time_final ''07:30'' 450, Gesture_mode_toggled False,
      Gesture_time_final ''07:30'' 450] \<and>
   fst (hand_tracking_loop
     [(None, \<lparr>camera_opens = True,
               frame = Some (Some \<lparr>wrist = \<lparr>lm_x = 0.75, lm_y = 0.5, lm_z = 0\<rparr>,
                                   thumb_tip = \<lparr>lm_x = 1.75, lm_y = 0.5, lm_z = 0\<rparr>,
                                   index_tip = \<lparr>lm_x = 1.75, lm_y = 0.5, lm_z = 0\<rparr>,
                                   middle_tip = \<lparr>lm_x = 1.75, lm_y = 0.5, lm_z = 0\<rparr>,
                                   ring_tip = \<lparr>lm_x = 1.75, lm_y = 0.5, lm_z = 0\<rparr>,
                                   pinky_tip = \<lparr>lm_x = 1.75, lm_y = 0.5, lm_z = 0\<rparr>\<rparr>),
               client_count = 1, key_q = False, now = 10\<rparr>),
      (Some False, \<lparr>camera_opens = True, frame = None, client_count = 1, key_q = False,
                     now = 10.5\<rparr>),
      (None, \<lparr>camera_opens = True, frame = None, client_count = 1, key_q = False, now = 10.6\<rparr>)]
     initial_tracker True)
   = [Gesture_time_update ''09:30'' 570, Gesture_time_final ''09:30'' 570]"
  by (simp add: hand_tracking_pass_def track_hand_def initial_tracker_def Let_def
      is_fist_closed is_fist_def distance_3d_x adjust_time_def py_int_def time_str_450 time_str_570)

text \<open>
  Claim C5, as the code has it.  The integer part of the offset is taken by \<open>int()\<close>,
  which truncates towards zero and does not round to the nearest integer: for a hand
  position \<open>x \<ge> 0.5\<close> the minute value is \<open>clamp(450 + floor((x - 0.5) * 2 * 240), 0, 1439)\<close>,
  for \<open>x < 0.5\<close> it is \<open>clamp(450 + ceiling((x - 0.5) * 2 * 240), 0, 1439)\<close>.  For \<open>x\<close> in
  \<open>[0, 1]\<close> the value lies in \<open>[210, 690]\<close>, so the clamp leaves it as it is; for every
  \<open>x\<close> and every base the value lies in \<open>[0, 1439]\<close>.  \<open>x = 0.5\<close> gives 450 (07:30),
  \<open>x = 0\<close> gives 210 (03:30), \<open>x = 1\<close> gives 690 (11:30).  A frame with an open hand
  stores this value in \<open>current_time_minutes\<close>.
\<close>

theorem C5_adjust_time:
  "(0.5 \<le> x \<longrightarrow> adjust_time 450 x = max 0 (min 1439 (450 + \<lfloor>(x - 0.5) * 2 * 240\<rfloor>))) \<and>
   (x < 0.5 \<longrightarrow> adjust_time 450 x = max 0 (min 1439 (450 + \<lceil>(x - 0.5) * 2 * 240\<rceil>))) \<and>
   (0 \<le> x \<and> x \<le> 1 \<longrightarrow> 210 \<le> adjust_time 450 x \<and> adjust_time 450 x \<le> 690) \<and>
   0 \<le> adjust_time b x \<and> adjust_time b x \<le> 1439 \<and>
   adjust_time 450 0.5 = 450 \<and> time_str 450 = ''07:30'' \<and>
   adjust_time 450 0 = 210 \<and> time_str 210 = ''03:30'' \<and>
   adjust_time 450 1 = 690 \<and> time_str 690 = ''11:30'' \<and>
   (\<not> is_fist hand \<longrightarrow>
      current_time_minutes (fst (snd (track_hand inp hand st enabled))) =
        adjust_time (base_time_minutes st) (lm_x (wrist hand)))"
proof -
  have a: "0.5 \<le> x \<longrightarrow> adjust_time 450 x = max 0 (min 1439 (450 + \<lfloor>(x - 0.5) * 2 * 240\<rfloor>))"
    by (simp add: adjust_time_def py_int_def Let_def)
  have b: "x < 0.5 \<longrightarrow> adjust_time 450 x = max 0 (min 1439 (450 + \<lceil>(x - 0.5) * 2 * 240\<rceil>))"
    by (simp add: adjust_time_def py_int_def Let_def)
  have c: "0 \<le> x \<and> x \<le> 1 \<longrightarrow> 210 \<le> adjust_time 450 x \<and> adjust_time 450 x \<le> 690"
    using adjust_time_unit(2,3) [of x] by blast
  have d: "adjust_time 450 0.5 = 450" "adjust_time 450 0 = 210" "adjust_time 450 1 = 690"
    by (simp_all add: adjust_time_def py_int_def Let_def)
  have e: "time_str 450 = ''07:30''" "time_str 210 = ''03:30''" "time_str 690 = ''11:30''"
    by (simp_all add: time_str_def fmt_02d_def Let_def digit_char_def)
  have f: "\<not> is_fist hand \<longrightarrow>
      current_time_minutes (fst (snd (track_hand inp hand st enabled))) =
        adjust_time (base_time_minutes st) (lm_x (wrist hand))"
    by (simp add: track_hand_def Let_def)
  show ?thesis
    using a b c d e f adjust_time_bounds [of b x] by blast
qed

theorem C5_adjust_time_witness:
  "adjust_time 450 (3 / 4) = 570 \<and> adjust_time 450 (1 / 4) = 330 \<and>
   adjust_time 450 (257 / 512) = 450 \<and> adjust_time 450 (255 / 512) = 450"
  using C5_adjust_time [of "3 / 4"] C5_adjust_time [of "1 / 4"]
    C5_adjust_time [of "257 / 512"] C5_adjust_time [of "255 / 512"]
  by simp

text \<open>
  With rounding to the nearest integer, as claim C5 is written, the hand position
  \<open>x = 257/512\<close> (offset 0.9375) would give 451 minutes; the code gives 450.
\<close>

theorem C5_round_counterexample:
  "(0::real) \<le> 257 / 512 \<and> (257::real) / 512 \<le> 1 \<and>
   adjust_time 450 (257 / 512) = 450 \<and> spec_minutes (257 / 512) = 451 \<and>
   adjust_time 450 (257 / 512) \<noteq> spec_minutes (257 / 512)"
  by (simp add: adjust_time_def py_int_def Let_def spec_minutes_def round_def)



text \<open>
  Claim C7 says that a call of \<open>recognize\<close> without a match leaves the captured stroke
  as it was.  The code at a swipe of five points along the lower edge of the unit
  square: a recognizer with 64 points is made, the stroke is captured and \<open>recognize\<close>
  is called.  Every resampled point has \<open>y = 0\<close> and every template point has
  \<open>y = 0.5\<close>, so both mean distances are at least 0.5 and the call returns no match; but
  \<open>_resample\<close> was handed the captured list itself and has inserted its 63 points into
  it, so the captured stroke has 68 points afterwards and is not the stroke that was
  captured.
\<close>

theorem C7_recognize_changes_stroke:
  "map_option (map_sum id (map_prod id length))
     (recognize_stroke 64
        [\<lparr>px = 0, py = 0\<rparr>, \<lparr>px = 0.25, py = 0\<rparr>, \<lparr>px = 0.5, py = 0\<rparr>,
         \<lparr>px = 0.75, py = 0\<rparr>, \<lparr>px = 1, py = 0\<rparr>] 1)
   = Some (Inr (None, 68)) \<and>
   recognize_stroke 64
     [\<lparr>px = 0, py = 0\<rparr>, \<lparr>px = 0.25, py = 0\<rparr>, \<lparr>px = 0.5, py = 0\<rparr>,
      \<lparr>px = 0.75, py = 0\<rparr>, \<lparr>px = 1, py = 0\<rparr>] 1
   \<noteq> Some (Inr (None,
        [\<lparr>px = 0, py = 0\<rparr>, \<lparr>px = 0.25, py = 0\<rparr>, \<lparr>px = 0.5, py = 0\<rparr>,
         \<lparr>px = 0.75, py = 0\<rparr>, \<lparr>px = 1, py = 0\<rparr>]))"
proof -
  let ?s = "[\<lparr>px = 0, py = 0\<rparr>, \<lparr>px = 0.25, py = 0\<rparr>, \<lparr>px = 0.5, py = 0\<rparr>,
             \<lparr>px = 0.75, py = 0\<rparr>, \<lparr>px = 1, py = 0\<rparr>]"
  from DollarRecognizer_64 obtain r0 where r0: "DollarRecognizer 64 = Some (Inr r0)" by blast
  have l: "5 \<le> length ?s" by simp
  have p: "0 < path_length ?s" by (rule path_length_pos) simp
  from recognize_spec [OF r0 l p, of 1 "last_gesture_time r0"]
  obtain L R pts stroke' where
    t: "templates r0 = [(''left'', L), (''right'', R)]"
    and rs: "resample ?s 64 = Some (Inr (pts, stroke'))"
    and pts: "length pts = 64" and LR: "length L = 64" "length R = 64"
    and len: "length stroke' = length ?s + 63"
    and rec: "recognize 1 (r0\<lparr>points := ?s, last_gesture_time := last_gesture_time r0\<rparr>) =
       Some (Inr (if min (mean_distance pts L) (mean_distance pts R) < 0.5
                  then (Some (if mean_distance pts R < mean_distance pts L
                              then ''right'' else ''left''),
                        r0\<lparr>points := [], last_gesture_time := 1\<rparr>)
                  else (None, r0\<lparr>points := stroke',
                                 last_gesture_time := last_gesture_time r0\<rparr>)))"
    by blast
  have ne: "pts \<noteq> []" using pts by auto
  have "\<forall>p \<in> set ?s. py p = 0" by simp
  from resample_py [OF rs this] have y0: "\<forall>p \<in> set pts. py p = 0" .
  from templates_py [OF r0] t
  have yL: "\<forall>p \<in> set L. py p = 0.5" and yR: "\<forall>p \<in> set R. py p = 0.5" by simp_all
  have dL: "0.5 \<le> distance (pts ! i) (L ! i)" if "i < length pts" for i
  proof -
    from that pts LR have "pts ! i \<in> set pts" "L ! i \<in> set L" by simp_all
    with y0 yL have "py (pts ! i) = 0" "py (L ! i) = 0.5" by blast+
    with distance_ge_dy [of "pts ! i" "L ! i"] show ?thesis by simp
  qed
  have dR: "0.5 \<le> distance (pts ! i) (R ! i)" if "i < length pts" for i
  proof -
    from that pts LR have "pts ! i \<in> set pts" "R ! i \<in> set R" by simp_all
    with y0 yR have "py (pts ! i) = 0" "py (R ! i) = 0.5" by blast+
    with distance_ge_dy [of "pts ! i" "R ! i"] show ?thesis by simp
  qed
  have "0.5 \<le> mean_distance pts L" "0.5 \<le> mean_distance pts R"
    using mean_distance_ge [OF ne dL] mean_distance_ge [OF ne dR] by simp_all
  then have "\<not> min (mean_distance pts L) (mean_distance pts R) < 0.5" by simp
  with rec have "recognize 1 (r0\<lparr>points := ?s\<rparr>) = Some (Inr (None, r0\<lparr>points := stroke'\<rparr>))"
    by simp
  with r0 have rs: "recognize_stroke 64 ?s 1 = Some (Inr (None, stroke'))"
    by (simp add: recognize_stroke_def)
  have "stroke' \<noteq> ?s" using len by auto
  with rs len show ?thesis by simp
qed

text \<open>
  Claim C8.  \<open>broadcast\<close> never raises.  It serialises the message once and calls
  \<open>sendall\<close> with that one value for every socket that is in \<open>clients\<close> when the sweep
  begins, in order, whether or not earlier sends failed.  Afterwards \<open>clients\<close> holds
  the sockets whose send succeeded, in their order: the former set without exactly the
  sockets whose send failed.  \<open>sent_count\<close> is the number of successful sends.
\<close>

theorem C8_broadcast:
  "broadcast sendall dumps clients obj =
     Inr (filter (\<lambda>c. sendall c (dumps obj)) clients,
          map (\<lambda>c. (c, dumps obj)) clients,
          length (filter (\<lambda>c. sendall c (dumps obj)) clients)) \<and>
   set (filter (\<lambda>c. sendall c (dumps obj)) clients) =
     set clients - {c. \<not> sendall c (dumps obj)}"
proof -
  have "remove_dead (filter (\<lambda>c. \<not> sendall c (dumps obj)) clients) ([] @ clients) =
          Inr ([] @ filter (\<lambda>c. \<not> \<not> sendall c (dumps obj)) clients)"
    by (rule remove_dead_filter) simp
  then have "remove_dead (filter (\<lambda>c. \<not> sendall c (dumps obj)) clients) clients =
          Inr (filter (\<lambda>c. sendall c (dumps obj)) clients)"
    by simp
  then have "broadcast sendall dumps clients obj =
     Inr (filter (\<lambda>c. sendall c (dumps obj)) clients,
          map (\<lambda>c. (c, dumps obj)) clients,
          length (filter (\<lambda>c. sendall c (dumps obj)) clients))"
    by (simp add: broadcast_def Let_def send_loop_eq)
  moreover have "set (filter (\<lambda>c. sendall c (dumps obj)) clients) =
     set clients - {c. \<not> sendall c (dumps obj)}"
    by auto
  ultimately show ?thesis by blast
qed

theorem C8_broadcast_witness:
  "broadcast (\<lambda>c d. c \<noteq> (2::nat)) (\<lambda>e. e @ ''!'') [1, 2, 3] ''ev'' =
     Inr ([1, 3], [(1, ''ev!''), (2, ''ev!''), (3, ''ev!'')], 2)"
  using C8_broadcast [of "\<lambda>c d. c \<noteq> (2::nat)" "\<lambda>e. e @ ''!''" "[1, 2, 3]" "''ev''"]
  by simp

text \<open>
  Claim C9, as the code has it.  The scans of the two wheel rules run inside the
  \<open>with latest_objects_lock\<close> block together with the calls to \<open>broadcast\<close> in their
  loop bodies.  So every confirmation of a proximity scan (\<open>wheel_select_confirm\<close>,
  \<open>nurse_wheel_select_confirm\<close>, \<open>nurse_edit_med_select\<close>) is published while the caller
  holds the registry lock, and the lock of \<open>clients\<close> is taken inside it, always in
  this order.  Every other message is published with the lock of \<open>clients\<close> alone.
  When an event has been processed no lock is held.
\<close>

theorem C9_locks_during_publish:
  "sweeps {} (fst (process_logic_and_broadcast objs enabled record)) =
     map sweep_locks (broadcasts (fst (process_logic_and_broadcast objs enabled record))) \<and>
   held_after {} (fst (process_logic_and_broadcast objs enabled record)) = {} \<and>
   sweeps {} (fst (handle_obj event_type obj st)) =
     map sweep_locks (broadcasts (fst (handle_obj event_type obj st))) \<and>
   held_after {} (fst (handle_obj event_type obj st)) = {}"
proof -
  have "sweeps {} (fst (handle_obj event_type obj st)) =
     map sweep_locks (broadcasts (fst (handle_obj event_type obj st)))"
    unfolding fst_handle_obj
    by (simp add: sweeps_process split: option.split)
  moreover have "held_after {} (fst (handle_obj event_type obj st)) = {}"
    unfolding fst_handle_obj
    by (simp add: sweeps_process split: option.split)
  ultimately show ?thesis by (simp add: sweeps_process)
qed

theorem C9_locks_during_publish_witness:
  "sweeps {} (fst (process_logic_and_broadcast
     [(Some 1, \<lparr>r_event = Update, r_symbol_id = 0, r_session_id = Some 1, r_x = 0.5, r_y = 0.5,
                 r_angle = 0\<rparr>),
      (Some 2, \<lparr>r_event = Add, r_symbol_id = 1, r_session_id = Some 2, r_x = 0.5, r_y = 0.55,
                 r_angle = 0\<rparr>)]
     False
     \<lparr>r_event = Update, r_symbol_id = 0, r_session_id = Some 1, r_x = 0.5, r_y = 0.5, r_angle = 0\<rparr>))
   = [(Tuio_obj \<lparr>r_event = Update, r_symbol_id = 0, r_session_id = Some 1, r_x = 0.5, r_y = 0.5,
                 r_angle = 0\<rparr>, {clients_lock}),
      (Wheel_hover 0 0 0.5 0.5 ''Paracetamol'' ''patient'', {clients_lock}),
      (Wheel_select_confirm 0 ''Paracetamol'' ''patient'', {latest_objects_lock, clients_lock})]"
  using C9_locks_during_publish [of
     "[(Some 1, \<lparr>r_event = Update, r_symbol_id = 0, r_session_id = Some 1, r_x = 0.5, r_y = 0.5,
                 r_angle = 0\<rparr>),
      (Some 2, \<lparr>r_event = Add, r_symbol_id = 1, r_session_id = Some 2, r_x = 0.5, r_y = 0.55,
                 r_angle = 0\<rparr>)]"
     False
     "\<lparr>r_event = Update, r_symbol_id = 0, r_session_id = Some 1, r_x = 0.5, r_y = 0.5, r_angle = 0\<rparr>"]
  by (simp add: broadcasts_process_rotate broadcasts_patient_wheel marker_dist_same_x symbol_defs
      wheel_sector_zero wheel_theta_zero medication_at_zero sweep_locks_def)

text \<open>
  Against claim C9 as it is written: an update of the rotate wheel with a selector at
  distance 0.05.  The confirmation is published between taking and releasing the
  registry lock, so both locks are held during its sweep.
\<close>

theorem C9_both_locks_counterexample:
  "fst (process_logic_and_broadcast
     [(Some 1, \<lparr>r_event = Update, r_symbol_id = 0, r_session_id = Some 1, r_x = 0.5, r_y = 0.5,
                 r_angle = 0\<rparr>),
      (Some 2, \<lparr>r_event = Add, r_symbol_id = 1, r_session_id = Some 2, r_x = 0.5, r_y = 0.55,
                 r_angle = 0\<rparr>)]
     False
     \<lparr>r_event = Update, r_symbol_id = 0, r_session_id = Some 1, r_x = 0.5, r_y = 0.5,
       r_angle = 0\<rparr>)
   = [Broadcast (Tuio_obj \<lparr>r_event = Update, r_symbol_id = 0, r_session_id = Some 1,
                            r_x = 0.5, r_y = 0.5, r_angle = 0\<rparr>),
      Broadcast (Wheel_hover 0 0 0.5 0.5 ''Paracetamol'' ''patient''),
      Acquire latest_objects_lock,
      Broadcast (Wheel_select_confirm 0 ''Paracetamol'' ''patient''),
      Release latest_objects_lock] \<and>
   (Wheel_select_confirm 0 ''Paracetamol'' ''patient'', {latest_objects_lock, clients_lock})
   \<in> set (sweeps {} (fst (process_logic_and_broadcast
     [(Some 1, \<lparr>r_event = Update, r_symbol_id = 0, r_session_id = Some 1, r_x = 0.5, r_y = 0.5,
                 r_angle = 0\<rparr>),
      (Some 2, \<lparr>r_event = Add, r_symbol_id = 1, r_session_id = Some 2, r_x = 0.5, r_y = 0.55,
                 r_angle = 0\<rparr>)]
     False
     \<lparr>r_event = Update, r_symbol_id = 0, r_session_id = Some 1, r_x = 0.5, r_y = 0.5,
       r_angle = 0\<rparr>)))"
proof -
  have "fst (process_logic_and_broadcast
     [(Some 1, \<lparr>r_event = Update, r_symbol_id = 0, r_session_id = Some 1, r_x = 0.5, r_y = 0.5,
                 r_angle = 0\<rparr>),
      (Some 2, \<lparr>r_event = Add, r_symbol_id = 1, r_session_id = Some 2, r_x = 0.5, r_y = 0.55,
                 r_angle = 0\<rparr>)]
     False
     \<lparr>r_event = Update, r_symbol_id = 0, r_session_id = Some 1, r_x = 0.5, r_y = 0.5,
       r_angle = 0\<rparr>)
   = [Broadcast (Tuio_obj \<lparr>r_event = Update, r_symbol_id = 0, r_session_id = Some 1,
                            r_x = 0.5, r_y = 0.5, r_angle = 0\<rparr>),
      Broadcast (Wheel_hover 0 0 0.5 0.5 ''Paracetamol'' ''patient''),
      Acquire latest_objects_lock,
      Broadcast (Wheel_select_confirm 0 ''Paracetamol'' ''patient''),
      Release latest_objects_lock]"
    by (simp add: fst_process patient_wheel_logic_def nurse_wheel_logic_def back_logic_def
        gesture_toggle_logic_def locked_scan_def select_body_def Let_def
        marker_dist_same_x symbol_defs wheel_sector_zero wheel_theta_zero medication_at_zero)
  then show ?thesis by (simp add: insert_commute)
qed

text \<open>
  Claim C10.  A rotate-wheel add or update publishes \<open>tuio_obj\<close>, \<open>wheel_open\<close> on an
  add, \<open>wheel_hover\<close>, and then exactly one \<open>wheel_select_confirm\<close> for each selector
  entry of the registry that is strictly nearer than 0.08, each with the sector and the
  medication of the \<open>wheel_hover\<close>.  A nurse-mode add or update likewise publishes one
  \<open>nurse_wheel_select_confirm\<close> for each near view-patient-info entry and one
  \<open>nurse_edit_med_select\<close> for each near edit-medications entry, in registry order.
\<close>

theorem C10_one_confirmation_per_match:
  "(r_symbol_id record = ROTATE_SYMBOL \<and> r_event record \<noteq> Remove \<longrightarrow>
      broadcasts (fst (process_logic_and_broadcast objs enabled record)) =
        Tuio_obj record #
        (if r_event record = Add then [Wheel_open (r_x record) (r_y record) ''patient''] else []) @
        Wheel_hover (wheel_sector (r_angle record)) (wheel_theta (r_angle record))
          (r_x record) (r_y record) (medication_at (wheel_sector (r_angle record))) ''patient'' #
        replicate
          (length (filter (\<lambda>item. r_symbol_id (snd item) = SELECT_SYMBOL \<and>
                                    marker_dist (snd item) record < 0.08) objs))
          (Wheel_select_confirm (wheel_sector (r_angle record))
             (medication_at (wheel_sector (r_angle record))) ''patient'')) \<and>
   (r_symbol_id record = NURSE_MODE_SYMBOL \<and> r_event record \<noteq> Remove \<longrightarrow>
      broadcasts (fst (process_logic_and_broadcast objs enabled record)) =
        Tuio_obj record #
        (if r_event record = Add then [Nurse_wheel_open (r_x record) (r_y record)] else []) @
        Nurse_wheel_hover (wheel_sector (r_angle record)) (wheel_theta (r_angle record))
          (r_x record) (r_y record) (medication_at (wheel_sector (r_angle record))) #
        map (\<lambda>item. if r_symbol_id (snd item) = VIEW_PATIENT_INFO_SYMBOL
                     then Nurse_wheel_select_confirm (wheel_sector (r_angle record))
                            (medication_at (wheel_sector (r_angle record)))
                     else Nurse_edit_med_select (wheel_sector (r_angle record))
                            (medication_at (wheel_sector (r_angle record))))
          (filter (\<lambda>item. (r_symbol_id (snd item) = VIEW_PATIENT_INFO_SYMBOL \<or>
                            r_symbol_id (snd item) = EDIT_MEDICATIONS_SYMBOL) \<and>
                           marker_dist (snd item) record < 0.08) objs) \<and>
      length (filter (\<lambda>e. e = Nurse_wheel_select_confirm (wheel_sector (r_angle record))
                               (medication_at (wheel_sector (r_angle record))))
                (broadcasts (fst (process_logic_and_broadcast objs enabled record)))) =
        length (filter (\<lambda>item. r_symbol_id (snd item) = VIEW_PATIENT_INFO_SYMBOL \<and>
                                 marker_dist (snd item) record < 0.08) objs) \<and>
      length (filter (\<lambda>e. e = Nurse_edit_med_select (wheel_sector (r_angle record))
                               (medication_at (wheel_sector (r_angle record))))
                (broadcasts (fst (process_logic_and_broadcast objs enabled record)))) =
        length (filter (\<lambda>item. r_symbol_id (snd item) = EDIT_MEDICATIONS_SYMBOL \<and>
                                 marker_dist (snd item) record < 0.08) objs))"
proof -
  let ?s = "wheel_sector (r_angle record)"
  let ?g = "\<lambda>item. if r_symbol_id (snd item) = VIEW_PATIENT_INFO_SYMBOL
                   then Nurse_wheel_select_confirm ?s (medication_at ?s)
                   else Nurse_edit_med_select ?s (medication_at ?s)"
  let ?Q = "\<lambda>item. (r_symbol_id (snd item) = VIEW_PATIENT_INFO_SYMBOL \<or>
                    r_symbol_id (snd item) = EDIT_MEDICATIONS_SYMBOL) \<and>
                   marker_dist (snd item) record < 0.08"
  have p: "r_symbol_id record = ROTATE_SYMBOL \<and> r_event record \<noteq> Remove \<longrightarrow>
      broadcasts (fst (process_logic_and_broadcast objs enabled record)) =
        Tuio_obj record #
        (if r_event record = Add then [Wheel_open (r_x record) (r_y record) ''patient''] else []) @
        Wheel_hover ?s (wheel_theta (r_angle record))
          (r_x record) (r_y record) (medication_at ?s) ''patient'' #
        replicate
          (length (filter (\<lambda>item. r_symbol_id (snd item) = SELECT_SYMBOL \<and>
                                    marker_dist (snd item) record < 0.08) objs))
          (Wheel_select_confirm ?s (medication_at ?s) ''patient'')"
    by (simp add: broadcasts_process_rotate broadcasts_patient_wheel map_replicate_const)
  have c1: "length (filter (\<lambda>e. e = Nurse_wheel_select_confirm ?s (medication_at ?s))
                (map ?g (filter ?Q objs))) =
        length (filter (\<lambda>item. r_symbol_id (snd item) = VIEW_PATIENT_INFO_SYMBOL \<and>
                                 marker_dist (snd item) record < 0.08) objs)"
    by (induction objs) (simp_all add: symbol_defs)
  have c2: "length (filter (\<lambda>e. e = Nurse_edit_med_select ?s (medication_at ?s))
                (map ?g (filter ?Q objs))) =
        length (filter (\<lambda>item. r_symbol_id (snd item) = EDIT_MEDICATIONS_SYMBOL \<and>
                                 marker_dist (snd item) record < 0.08) objs)"
    by (induction objs) (simp_all add: symbol_defs)
  have n: "r_symbol_id record = NURSE_MODE_SYMBOL \<and> r_event record \<noteq> Remove \<longrightarrow>
      broadcasts (fst (process_logic_and_broadcast objs enabled record)) =
        Tuio_obj record #
        (if r_event record = Add then [Nurse_wheel_open (r_x record) (r_y record)] else []) @
        Nurse_wheel_hover ?s (wheel_theta (r_angle record)) (r_x record) (r_y record)
          (medication_at ?s) # map ?g (filter ?Q objs)"
    by (simp add: broadcasts_process_nurse broadcasts_nurse_wheel)
  show ?thesis
  proof (intro conjI impI)
    assume "r_symbol_id record = ROTATE_SYMBOL \<and> r_event record \<noteq> Remove"
    with p show "broadcasts (fst (process_logic_and_broadcast objs enabled record)) =
        Tuio_obj record #
        (if r_event record = Add then [Wheel_open (r_x record) (r_y record) ''patient''] else []) @
        Wheel_hover ?s (wheel_theta (r_angle record))
          (r_x record) (r_y record) (medication_at ?s) ''patient'' #
        replicate
          (length (filter (\<lambda>item. r_symbol_id (snd item) = SELECT_SYMBOL \<and>
                                    marker_dist (snd item) record < 0.08) objs))
          (Wheel_select_confirm ?s (medication_at ?s) ''patient'')" by blast
  next
    assume a: "r_symbol_id record = NURSE_MODE_SYMBOL \<and> r_event record \<noteq> Remove"
    with n show b: "broadcasts (fst (process_logic_and_broadcast objs enabled record)) =
        Tuio_obj record #
        (if r_event record = Add then [Nurse_wheel_open (r_x record) (r_y record)] else []) @
        Nurse_wheel_hover ?s (wheel_theta (r_angle record)) (r_x record) (r_y record)
          (medication_at ?s) # map ?g (filter ?Q objs)" by blast
    show "length (filter (\<lambda>e. e = Nurse_wheel_select_confirm ?s (medication_at ?s))
                (broadcasts (fst (process_logic_and_broadcast objs enabled record)))) =
        length (filter (\<lambda>item. r_symbol_id (snd item) = VIEW_PATIENT_INFO_SYMBOL \<and>
                                 marker_dist (snd item) record < 0.08) objs)"
      unfolding b using c1 by simp
    show "length (filter (\<lambda>e. e = Nurse_edit_med_select ?s (medication_at ?s))
                (broadcasts (fst (process_logic_and_broadcast objs enabled record)))) =
        length (filter (\<lambda>item. r_symbol_id (snd item) = EDIT_MEDICATIONS_SYMBOL \<and>
                                 marker_dist (snd item) record < 0.08) objs)"
      unfolding b using c2 by simp
  qed
qed

theorem C10_one_confirmation_per_match_witness:
  "broadcasts (fst (process_logic_and_broadcast
     [(Some 1, \<lparr>r_event = Update, r_symbol_id = 0, r_session_id = Some 1, r_x = 0.5, r_y = 0.5,
                 r_angle = 0\<rparr>),
      (Some 2, \<lparr>r_event = Add, r_symbol_id = 1, r_session_id = Some 2, r_x = 0.5, r_y = 0.55,
                 r_angle = 0\<rparr>),
      (Some 3, \<lparr>r_event = Add, r_symbol_id = 1, r_session_id = Some 3, r_x = 0.5, r_y = 0.45,
                 r_angle = 0\<rparr>),
      (Some 4, \<lparr>r_event = Add, r_symbol_id = 1, r_session_id = Some 4, r_x = 0.5, r_y = 0.9,
                 r_angle = 0\<rparr>)]
     False
     \<lparr>r_event = Update, r_symbol_id = 0, r_session_id = Some 1, r_x = 0.5, r_y = 0.5, r_angle = 0\<rparr>))
   = [Tuio_obj \<lparr>r_event = Update, r_symbol_id = 0, r_session_id = Some 1, r_x = 0.5, r_y = 0.5,
                 r_angle = 0\<rparr>,
      Wheel_hover 0 0 0.5 0.5 ''Paracetamol'' ''patient'',
      Wheel_select_confirm 0 ''Paracetamol'' ''patient'',
      Wheel_select_confirm 0 ''Paracetamol'' ''patient''] \<and>
   broadcasts (fst (process_logic_and_broadcast
     [(Some 5, \<lparr>r_event = Add, r_symbol_id = 14, r_session_id = Some 5, r_x = 0.5, r_y = 0.55,
                 r_angle = 0\<rparr>),
      (Some 6, \<lparr>r_event = Add, r_symbol_id = 15, r_session_id = Some 6, r_x = 0.5, r_y = 0.45,
                 r_angle = 0\<rparr>),
      (Some 7, \<lparr>r_event = Add, r_symbol_id = 14, r_session_id = Some 7, r_x = 0.5, r_y = 0.9,
                 r_angle = 0\<rparr>)]
     False
     \<lparr>r_event = Update, r_symbol_id = 13, r_session_id = Some 8, r_x = 0.5, r_y = 0.5, r_angle = 0\<rparr>))
   = [Tuio_obj \<lparr>r_event = Update, r_symbol_id = 13, r_session_id = Some 8, r_x = 0.5, r_y = 0.5,
                 r_angle = 0\<rparr>,
      Nurse_wheel_hover 0 0 0.5 0.5 ''Paracetamol'',
      Nurse_wheel_select_confirm 0 ''Paracetamol'',
      Nurse_edit_med_select 0 ''Paracetamol'']"
  using
    C10_one_confirmation_per_match [of
      "\<lparr>r_event = Update, r_symbol_id = 0, r_session_id = Some 1, r_x = 0.5, r_y = 0.5, r_angle = 0\<rparr>"
      "[(Some 1, \<lparr>r_event = Update, r_symbol_id = 0, r_session_id = Some 1, r_x = 0.5, r_y = 0.5,
                 r_angle = 0\<rparr>),
      (Some 2, \<lparr>r_event = Add, r_symbol_id = 1, r_session_id = Some 2, r_x = 0.5, r_y = 0.55,
                 r_angle = 0\<rparr>),
      (Some 3, \<lparr>r_event = Add, r_symbol_id = 1, r_session_id = Some 3, r_x = 0.5, r_y = 0.45,
                 r_angle = 0\<rparr>),
      (Some 4, \<lparr>r_event = Add, r_symbol_id = 1, r_session_id = Some 4, r_x = 0.5, r_y = 0.9,
                 r_angle = 0\<rparr>)]" False]
    C10_one_confirmation_per_match [of
      "\<lparr>r_event = Update, r_symbol_id = 13, r_session_id = Some 8, r_x = 0.5, r_y = 0.5, r_angle = 0\<rparr>"
      "[(Some 5, \<lparr>r_event = Add, r_symbol_id = 14, r_session_id = Some 5, r_x = 0.5, r_y = 0.55,
                 r_angle = 0\<rparr>),
      (Some 6, \<lparr>r_event = Add, r_symbol_id = 15, r_session_id = Some 6, r_x = 0.5, r_y = 0.45,
                 r_angle = 0\<rparr>),
      (Some 7, \<lparr>r_event = Add, r_symbol_id = 14, r_session_id = Some 7, r_x = 0.5, r_y = 0.9,
                 r_angle = 0\<rparr>)]" False]
  by (simp add: marker_dist_same_x symbol_defs wheel_sector_zero wheel_theta_zero medication_at_zero)

end
